theory Spec2Isabelle
  imports Complex_Main
begin

section \<open>Data model of \<open>Base.tsx\<close>\<close>

text \<open>The enumeration \<open>ModalState\<close>, in the order of its declaration.\<close>

datatype ModalState = LOADED | LOADING | UNLOADED | UNLOADING

text \<open>
  An attribute value of the optional \<open>zoomImg\<close> object: a string, or a key that is present
  with the value \<open>undefined\<close>.
\<close>

datatype jsval = Undefined | Str string

text \<open>The type \<open>HTMLElement | Window\<close> of \<open>scrollableEl\<close>: the window, or an element by identity.\<close>

datatype event_target = Window | Element nat

text \<open>
  The element found by \<open>findImgEl\<close>, as classified by \<open>testImg\<close>, \<open>testDiv\<close> and
  \<open>testSvg\<close>. The three tests live in \<open>./utils\<close>; their verdict is an input of the model.
  \<open>OtherEl\<close> is an element matched by \<open>[role="img"]\<close> or \<open>[data-zoom]\<close> that is none of the
  three.
\<close>

datatype el_kind = ImgEl | DivEl | SvgEl | OtherEl

text \<open>
  The props the behaviour depends on. \<open>onZoomChange\<close> is optional; a function is
  represented by its identity, which is what the dependency arrays of \<open>useCallback\<close> compare.
\<close>

record BaseProps =
  isZoomed :: bool
  onZoomChange :: "nat option"
  scrollableEl :: event_target
  zoomImg :: "(string \<rightharpoonup> jsval) option"
  zoomMargin :: real

text \<open>
  The two functions handed to \<open>addEventListener\<close>. \<open>handleResize\<close> has an empty dependency
  array and is one function for the life of the component. \<open>handleScroll\<close> is created anew
  whenever \<open>handleClose\<close>, that is \<open>onZoomChange\<close>, changes: it is identified by the number of
  the creation and carries the \<open>onZoomChange\<close> it closed over.
\<close>

datatype handler = HandleScroll nat "nat option" | HandleResize

datatype ev_type = ScrollT | ResizeT

text \<open>
  The work that waits for the browser: the two \<open>transitionend\<close> callbacks of \<open>zoom\<close> and
  \<open>unzoom\<close> with the \<open>scrollableEl\<close> and \<open>handleScroll\<close> they closed over, and the
  \<open>close\<close> event that \<open>dialog.close()\<close> queues.
\<close>

datatype pending = ZoomDone event_target handler | UnzoomDone event_target handler | CloseEvent

record BaseState =
  modalState :: ModalState
  isZoomImgLoaded :: bool
  forceUpdateVal :: nat
  prevIsZoomed :: "bool option"
  curProps :: "BaseProps option"
  curImgEl :: "el_kind option"
  lastPrev :: "bool option"
  scrollGen :: nat
  unmounted :: bool
  dialogOpen :: bool
  transitionendOnce :: "pending list"
  tasks :: "pending list"
  decoding :: nat
  listeners :: "(event_target \<times> ev_type \<times> handler) list"
  calls :: "(nat \<times> bool) list"

text \<open>
  The state before the first render: the initial values of the \<open>useState\<close> calls, nothing
  attached, nothing pending, no callback invoked, and \<open>undefined\<close> in the cell that
  \<open>usePrevious\<close> keeps.
\<close>

definition init0 :: BaseState where
  "init0 = \<lparr> modalState = UNLOADED, isZoomImgLoaded = False, forceUpdateVal = 0,
     prevIsZoomed = None, curProps = None, curImgEl = None, lastPrev = None, scrollGen = 0,
     unmounted = False, dialogOpen = False, transitionendOnce = [], tasks = [], decoding = 0,
     listeners = [], calls = [] \<rparr>"

section \<open>Derived values of a render\<close>

definition truthy :: "jsval \<Rightarrow> bool" where
  "truthy v = (case v of Undefined \<Rightarrow> False | Str s \<Rightarrow> s \<noteq> [])"

text \<open>\<open>zoomImg?.k\<close>\<close>

definition zoomImgAttr :: "BaseProps \<Rightarrow> string \<Rightarrow> jsval" where
  "zoomImgAttr p k = (case zoomImg p of None \<Rightarrow> Undefined
     | Some m \<Rightarrow> (case m k of None \<Rightarrow> Undefined | Some v \<Rightarrow> v))"

definition zoomImgSizes :: "BaseProps \<Rightarrow> jsval" where
  "zoomImgSizes p = zoomImgAttr p ''sizes''"

definition zoomImgSrc :: "BaseProps \<Rightarrow> jsval" where
  "zoomImgSrc p = zoomImgAttr p ''src''"

definition zoomImgSrcSet :: "BaseProps \<Rightarrow> jsval" where
  "zoomImgSrcSet p = zoomImgAttr p ''srcSet''"

definition hasZoomImg :: "BaseProps \<Rightarrow> bool" where
  "hasZoomImg p = truthy (zoomImgSrc p)"

definition isImg :: "el_kind option \<Rightarrow> bool" where
  "isImg k = (k = Some ImgEl)"

definition isDiv :: "el_kind option \<Rightarrow> bool" where
  "isDiv k = (k = Some DivEl)"

definition isSvg :: "el_kind option \<Rightarrow> bool" where
  "isSvg k = (k = Some SvgEl)"

definition isModalZoomed :: "bool \<Rightarrow> ModalState \<Rightarrow> bool" where
  "isModalZoomed z m = (z \<and> (m = LOADING \<or> m = LOADED))"

datatype visibility = Visible | Hidden

definition styleContent :: "ModalState \<Rightarrow> visibility" where
  "styleContent m = (if m = UNLOADED then Visible else Hidden)"

definition dataOverlayState :: "ModalState \<Rightarrow> visibility" where
  "dataOverlayState m = (if m = UNLOADED \<or> m = UNLOADING then Hidden else Visible)"

text \<open>
  \<open>refModalImg.current\<close> is set when one of the two modal image elements is rendered:
  the \<open>img\<close> under \<open>isImg || isDiv\<close>, the \<open>div\<close> under \<open>isSvg\<close>.
\<close>

definition hasModalImg :: "el_kind option \<Rightarrow> bool" where
  "hasModalImg k = (isImg k \<or> isDiv k \<or> isSvg k)"

text \<open>
  Which DOM node \<open>refModalImg.current\<close> is. The \<open>img\<close> and the \<open>div\<close> are two
  children of the modal content, each rendered under its own condition: while \<open>isImg || isDiv\<close>
  holds the \<open>img\<close> node stays the same node, and a change between \<open>img\<close>, \<open>div\<close> and
  nothing removes the old node from the document, with the listeners registered on it.
\<close>

datatype modal_node = NoModalNode | ModalImgNode | ModalDivNode

definition modalNode :: "el_kind option \<Rightarrow> modal_node" where
  "modalNode k = (if isImg k \<or> isDiv k then ModalImgNode
                  else if isSvg k then ModalDivNode else NoModalNode)"


section \<open>State setters and the event handlers\<close>

text \<open>
  A state setter of \<open>useState\<close> changes the state of a mounted component; React drops the
  update of a component that has been unmounted. Work on the DOM (listeners, the external
  callback) is not affected by unmounting.
\<close>

definition setModalState :: "ModalState \<Rightarrow> BaseState \<Rightarrow> BaseState" where
  "setModalState m s = (if unmounted s then s else s\<lparr>modalState := m\<rparr>)"

definition setIsZoomImgLoaded :: "bool \<Rightarrow> BaseState \<Rightarrow> BaseState" where
  "setIsZoomImgLoaded b s = (if unmounted s then s else s\<lparr>isZoomImgLoaded := b\<rparr>)"

definition forceUpdate :: "(nat \<Rightarrow> nat) \<Rightarrow> BaseState \<Rightarrow> BaseState" where
  "forceUpdate f s = (if unmounted s then s else s\<lparr>forceUpdateVal := f (forceUpdateVal s)\<rparr>)"

text \<open>\<open>onZoomChange?.(v)\<close>: the call is recorded with the identity of the callback.\<close>

definition report :: "nat option \<Rightarrow> bool \<Rightarrow> BaseState \<Rightarrow> BaseState" where
  "report cb v s = (case cb of None \<Rightarrow> s | Some c \<Rightarrow> s\<lparr>calls := calls s @ [(c, v)]\<rparr>)"

definition handleOpen :: "nat option \<Rightarrow> BaseState \<Rightarrow> BaseState" where
  "handleOpen cb s = report cb True s"

definition handleClose :: "nat option \<Rightarrow> BaseState \<Rightarrow> BaseState" where
  "handleClose cb s = report cb False s"

definition handleScroll :: "nat option \<Rightarrow> BaseState \<Rightarrow> BaseState" where
  "handleScroll cb s = handleClose cb (forceUpdate (\<lambda>n. n + 1) s)"

definition handleResize :: "BaseState \<Rightarrow> BaseState" where
  "handleResize s = forceUpdate (\<lambda>n. n + 1) s"

record KeyboardEvent =
  key :: string
  keyCode :: nat
  defaultPrevented :: bool
  propagationStopped :: bool

definition handleDialogKeyDown ::
  "nat option \<Rightarrow> KeyboardEvent \<Rightarrow> BaseState \<Rightarrow> KeyboardEvent \<times> BaseState" where
  "handleDialogKeyDown cb e s =
     (if key e = ''Escape'' \<or> keyCode e = 27
      then (e\<lparr>defaultPrevented := True, propagationStopped := True\<rparr>, handleClose cb s)
      else (e, s))"

section \<open>Listeners on event targets\<close>

text \<open>
  \<open>addEventListener\<close> ignores a listener that is already registered for the same target,
  type and function; \<open>removeEventListener\<close> removes the registration with exactly that
  target, type and function, and does nothing when there is none.
\<close>

definition addEventListener ::
  "event_target \<Rightarrow> ev_type \<Rightarrow> handler \<Rightarrow> BaseState \<Rightarrow> BaseState" where
  "addEventListener t ty h s =
     (if (t, ty, h) \<in> set (listeners s) then s
      else s\<lparr>listeners := listeners s @ [(t, ty, h)]\<rparr>)"

definition removeEventListener ::
  "event_target \<Rightarrow> ev_type \<Rightarrow> handler \<Rightarrow> BaseState \<Rightarrow> BaseState" where
  "removeEventListener t ty h s =
     s\<lparr>listeners := filter (\<lambda>l. l \<noteq> (t, ty, h)) (listeners s)\<rparr>"

definition runHandler :: "handler \<Rightarrow> BaseState \<Rightarrow> BaseState" where
  "runHandler h s = (case h of HandleScroll g cb \<Rightarrow> handleScroll cb s
                        | HandleResize \<Rightarrow> handleResize s)"

text \<open>An event of type \<open>ty\<close> on target \<open>t\<close> runs the functions registered there, in order.\<close>

definition handlersOn :: "event_target \<Rightarrow> ev_type \<Rightarrow> BaseState \<Rightarrow> handler list" where
  "handlersOn t ty s =
     map (\<lambda>l. snd (snd l)) (filter (\<lambda>l. fst l = t \<and> fst (snd l) = ty) (listeners s))"

definition dispatchEvent :: "event_target \<Rightarrow> ev_type \<Rightarrow> BaseState \<Rightarrow> BaseState" where
  "dispatchEvent t ty s = fold runHandler (handlersOn t ty s) s"

section \<open>\<open>loadZoomImg\<close>, \<open>zoom\<close> and \<open>unzoom\<close>\<close>

text \<open>
  \<open>loadZoomImg\<close> starts one decode when \<open>zoomImgSrc\<close> is truthy; \<open>decoding\<close> counts the
  promises that have not settled. The \<open>then\<close> of a decode is \<open>setIsZoomImgLoaded(true)\<close>.
\<close>

definition loadZoomImg :: "BaseProps \<Rightarrow> BaseState \<Rightarrow> BaseState" where
  "loadZoomImg p s = (if truthy (zoomImgSrc p) then s\<lparr>decoding := decoding s + 1\<rparr> else s)"

definition decodeResolved :: "BaseState \<Rightarrow> BaseState" where
  "decodeResolved s =
     (if decoding s = 0 then s
      else setIsZoomImgLoaded True (s\<lparr>decoding := decoding s - 1\<rparr>))"

definition decodeRejected :: "BaseState \<Rightarrow> BaseState" where
  "decodeRejected s = (if decoding s = 0 then s else s\<lparr>decoding := decoding s - 1\<rparr>)"

text \<open>
  \<open>zoom\<close> as created in a render with props \<open>p\<close>, resolved target \<open>k\<close> and the
  \<open>handleScroll\<close> \<open>h\<close> of that render.
\<close>

definition zoom :: "BaseProps \<Rightarrow> el_kind option \<Rightarrow> handler \<Rightarrow> BaseState \<Rightarrow> BaseState" where
  "zoom p k h s =
     (let s1 = s\<lparr>dialogOpen := True\<rparr>;
          s2 = setModalState LOADING s1;
          s3 = loadZoomImg p s2
      in if hasModalImg k
         then s3\<lparr>transitionendOnce := transitionendOnce s3 @ [ZoomDone (scrollableEl p) h]\<rparr>
         else s3)"

definition unzoom :: "BaseProps \<Rightarrow> el_kind option \<Rightarrow> handler \<Rightarrow> BaseState \<Rightarrow> BaseState" where
  "unzoom p k h s =
     (let s1 = setModalState UNLOADING s
      in if hasModalImg k
         then s1\<lparr>transitionendOnce := transitionendOnce s1 @ [UnzoomDone (scrollableEl p) h]\<rparr>
         else s1)"

text \<open>The \<open>onZoomChange\<close> of the last render, which the handlers in the JSX close over.\<close>

definition curOnZoomChange :: "BaseState \<Rightarrow> nat option" where
  "curOnZoomChange s = (case curProps s of None \<Rightarrow> None | Some p \<Rightarrow> onZoomChange p)"

text \<open>
  \<open>refDialog.current?.close?.()\<close>: closing an open dialog queues its \<open>close\<close> event;
  a closed dialog is left alone, and after unmounting the ref is \<open>null\<close>. Then the bodies
  of the two \<open>setTimeout\<close> callbacks, and the \<open>close\<close> event of the dialog, which runs
  \<open>onClose={handleClose}\<close>.
\<close>

definition closeDialog :: "BaseState \<Rightarrow> BaseState" where
  "closeDialog s =
     (if dialogOpen s \<and> \<not> unmounted s
      then s\<lparr>dialogOpen := False, tasks := tasks s @ [CloseEvent]\<rparr> else s)"

definition runPending :: "pending \<Rightarrow> BaseState \<Rightarrow> BaseState" where
  "runPending t s =
     (case t of
        ZoomDone el h \<Rightarrow>
          addEventListener Window ResizeT HandleResize
            (addEventListener el ScrollT h (setModalState LOADED s))
      | UnzoomDone el h \<Rightarrow>
          closeDialog (forceUpdate (\<lambda>n. 0) (setModalState UNLOADED
            (removeEventListener el ScrollT h
              (removeEventListener Window ResizeT HandleResize s))))
      | CloseEvent \<Rightarrow>
          (if unmounted s then s else handleClose (curOnZoomChange s) s))"

text \<open>
  A \<open>transitionend\<close> event on the modal image runs every listener registered there; each was
  registered with \<open>once: true\<close>, so it is removed, and each defers its body by
  \<open>setTimeout(..., 0)\<close>. \<open>transitionendOnce\<close> holds the listeners on the node that is
  the modal image now; a render that replaces the node, and the unmount, empty it.
\<close>

definition transitionEnd :: "BaseState \<Rightarrow> BaseState" where
  "transitionEnd s = s\<lparr>tasks := tasks s @ transitionendOnce s, transitionendOnce := []\<rparr>"

definition runTask :: "BaseState \<Rightarrow> BaseState" where
  "runTask s = (case tasks s of [] \<Rightarrow> s | t # ts \<Rightarrow> runPending t (s\<lparr>tasks := ts\<rparr>))"

section \<open>Renders and their effects\<close>

text \<open>
  Modelled from the spec: \<open>usePrevious\<close>, which \<open>Base.tsx\<close> imports from \<open>./hooks\<close>.
  Called in a render with the current value, it returns the value it was called with in the
  render before (\<open>undefined\<close> in the first render) and remembers the current one. The
  first component of the result is what the render sees, the second the remembered value
  after the render.
\<close>

definition usePrevious :: "bool option \<Rightarrow> bool \<Rightarrow> bool option \<times> bool option" where
  "usePrevious remembered v = (remembered, Some v)"

text \<open>
  The effect under the comment \<^emph>\<open>Show modal when zoomed; hide modal when unzoomed\<close>:
  what its body does for a given \<open>prevIsZoomed\<close> and \<open>isZoomed\<close>. \<open>!prevIsZoomed\<close>
  holds for \<open>undefined\<close> and for \<open>false\<close>.
\<close>

datatype effect_action = RunZoom | RunUnzoom | NoAction

definition zoomEffect :: "bool option \<Rightarrow> bool \<Rightarrow> effect_action" where
  "zoomEffect prev z =
     (if prev \<noteq> Some True \<and> z then RunZoom
      else if prev = Some True \<and> \<not> z then RunUnzoom
      else NoAction)"

text \<open>
  The effect runs after the first render and after a render in which one of its dependencies
  \<open>[isZoomed, prevIsZoomed, unzoom, zoom]\<close> differs from the render before. \<open>zoom\<close> and
  \<open>unzoom\<close> change with \<open>handleScroll\<close> (that is, with \<open>onZoomChange\<close>), with
  \<open>scrollableEl\<close>, and \<open>zoom\<close> also with the three values \<open>loadZoomImg\<close> depends on.
\<close>

definition zoomDepsChanged :: "BaseProps \<Rightarrow> bool option \<Rightarrow> BaseState \<Rightarrow> bool" where
  "zoomDepsChanged p prev s =
     (case curProps s of None \<Rightarrow> True
      | Some q \<Rightarrow> isZoomed q \<noteq> isZoomed p \<or> lastPrev s \<noteq> prev
           \<or> onZoomChange q \<noteq> onZoomChange p \<or> scrollableEl q \<noteq> scrollableEl p
           \<or> zoomImgSizes q \<noteq> zoomImgSizes p \<or> zoomImgSrc q \<noteq> zoomImgSrc p
           \<or> zoomImgSrcSet q \<noteq> zoomImgSrcSet p)"

definition renderAction :: "BaseProps \<Rightarrow> BaseState \<Rightarrow> effect_action" where
  "renderAction p s =
     (if unmounted s then NoAction
      else let prev = fst (usePrevious (prevIsZoomed s) (isZoomed p))
           in if zoomDepsChanged p prev s then zoomEffect prev (isZoomed p) else NoAction)"

text \<open>
  The cleanup under the comment \<^emph>\<open>Cleanup lingering handlers\<close>, for the \<open>handleScroll\<close>
  \<open>h\<close> of the render that installed it. Both removals are on \<open>window\<close>.
\<close>

definition cleanupLingering :: "handler \<Rightarrow> BaseState \<Rightarrow> BaseState" where
  "cleanupLingering h s =
     removeEventListener Window ScrollT h (removeEventListener Window ResizeT HandleResize s)"

text \<open>The \<open>handleScroll\<close> of the last render.\<close>

definition curHandleScroll :: "BaseState \<Rightarrow> handler" where
  "curHandleScroll s =
     HandleScroll (scrollGen s) (curOnZoomChange s)"

definition handleScrollChanged :: "BaseProps \<Rightarrow> BaseState \<Rightarrow> bool" where
  "handleScrollChanged p s =
     (case curProps s of None \<Rightarrow> False | Some q \<Rightarrow> onZoomChange q \<noteq> onZoomChange p)"

text \<open>
  One render with props \<open>p\<close> and resolved target \<open>k\<close>, committed, with its effects: first the
  cleanups of the effects whose dependencies changed (here the listener cleanup, when
  \<open>handleScroll\<close> is a new function), then the commit of the DOM, which replaces the modal
  image node when its kind changed, then the effects in the order of the source.
\<close>

definition render :: "BaseProps \<Rightarrow> el_kind option \<Rightarrow> BaseState \<Rightarrow> BaseState" where
  "render p k s =
     (if unmounted s then s
      else
        let prev = fst (usePrevious (prevIsZoomed s) (isZoomed p));
            act = renderAction p s;
            s1 = (if handleScrollChanged p s then cleanupLingering (curHandleScroll s) s else s);
            s2 = s1\<lparr>scrollGen := (if handleScrollChanged p s then scrollGen s + 1 else scrollGen s),
                    curProps := Some p, curImgEl := k,
                    transitionendOnce := (if modalNode k = modalNode (curImgEl s)
                                          then transitionendOnce s else [])\<rparr>;
            h = curHandleScroll s2;
            s3 = (case act of RunZoom \<Rightarrow> zoom p k h s2
                   | RunUnzoom \<Rightarrow> unzoom p k h s2
                   | NoAction \<Rightarrow> s2)
        in s3\<lparr>prevIsZoomed := snd (usePrevious (prevIsZoomed s) (isZoomed p)),
              lastPrev := prev\<rparr>)"

definition unmount :: "BaseState \<Rightarrow> BaseState" where
  "unmount s =
     (if unmounted s \<or> curProps s = None then s
      else (cleanupLingering (curHandleScroll s) s)\<lparr>unmounted := True, transitionendOnce := []\<rparr>)"

section \<open>Events on the rendered tree\<close>

text \<open>
  The elements of the returned JSX. A click is delivered to the \<open>onClick\<close> handlers on the
  path from the clicked element to the root, innermost first; no handler of this component
  stops the propagation of a click. \<open>Target\<close> is the resolved element inside the content
  region; its click listener is the one the effect
  \<^emph>\<open>Handle clicking the image\<close> attaches.
\<close>

datatype node = Wrap | Content | Target | Ghost | BtnZoom | Dialog | Overlay
  | ModalContent | ModalImg | BtnUnzoom

fun bubblePath :: "node \<Rightarrow> node list" where
  "bubblePath Wrap = [Wrap]"
| "bubblePath Content = [Content, Wrap]"
| "bubblePath Target = [Target, Content, Wrap]"
| "bubblePath Ghost = [Ghost, Wrap]"
| "bubblePath BtnZoom = [BtnZoom, Ghost, Wrap]"
| "bubblePath Dialog = [Dialog, Wrap]"
| "bubblePath Overlay = [Overlay, Dialog, Wrap]"
| "bubblePath ModalContent = [ModalContent, Dialog, Wrap]"
| "bubblePath ModalImg = [ModalImg, ModalContent, Dialog, Wrap]"
| "bubblePath BtnUnzoom = [BtnUnzoom, ModalContent, Dialog, Wrap]"

datatype click_handler = OnHandleOpen | OnHandleClose

fun onClick :: "el_kind option \<Rightarrow> node \<Rightarrow> click_handler option" where
  "onClick k BtnZoom = Some OnHandleOpen"
| "onClick k Dialog = Some OnHandleClose"
| "onClick k BtnUnzoom = Some OnHandleClose"
| "onClick k Target = (if k = None then None else Some OnHandleOpen)"
| "onClick k n = None"

definition runClick :: "node \<Rightarrow> BaseState \<Rightarrow> BaseState" where
  "runClick n s =
     (case onClick (curImgEl s) n of None \<Rightarrow> s
      | Some OnHandleOpen \<Rightarrow> handleOpen (curOnZoomChange s) s
      | Some OnHandleClose \<Rightarrow> handleClose (curOnZoomChange s) s)"

definition mounted :: "BaseState \<Rightarrow> bool" where
  "mounted s = (curProps s \<noteq> None \<and> \<not> unmounted s)"


definition click :: "node \<Rightarrow> BaseState \<Rightarrow> BaseState" where
  "click n s = (if mounted s then fold runClick (bubblePath n) s else s)"

text \<open>
  A \<open>keydown\<close> on the dialog. When the handler has not prevented the default, the browser
  closes an open modal dialog on Escape, which queues the \<open>close\<close> event.
\<close>

definition keydown :: "string \<Rightarrow> nat \<Rightarrow> BaseState \<Rightarrow> BaseState" where
  "keydown ky kc s =
     (if mounted s
      then let (e, s1) = handleDialogKeyDown (curOnZoomChange s)
                  \<lparr>key = ky, keyCode = kc, defaultPrevented = False, propagationStopped = False\<rparr> s
           in if \<not> defaultPrevented e \<and> key e = ''Escape'' then closeDialog s1 else s1
      else s)"

section \<open>The component as a transition system\<close>

datatype event =
    Render BaseProps "el_kind option"
  | TransitionEnd
  | RunTask
  | DecodeResolved
  | DecodeRejected
  | ScrollEv event_target
  | ResizeEv
  | KeyDown string nat
  | Click node
  | Unmount

fun step :: "event \<Rightarrow> BaseState \<Rightarrow> BaseState" where
  "step (Render p k) s = render p k s"
| "step TransitionEnd s = transitionEnd s"
| "step RunTask s = runTask s"
| "step DecodeResolved s = decodeResolved s"
| "step DecodeRejected s = decodeRejected s"
| "step (ScrollEv t) s = dispatchEvent t ScrollT s"
| "step ResizeEv s = dispatchEvent Window ResizeT s"
| "step (KeyDown ky kc) s = keydown ky kc s"
| "step (Click n) s = click n s"
| "step Unmount s = unmount s"

definition run :: "event list \<Rightarrow> BaseState \<Rightarrow> BaseState" where
  "run es s = fold step es s"

section \<open>The modal image element\<close>








section \<open>Concrete inputs\<close>

text \<open>
  Props and event sequences on which the properties below are evaluated: a component with a
  replacement image, a callback and a scroll container other than the window, first closed and
  then opened.
\<close>

definition propsClosed :: BaseProps where
  "propsClosed = \<lparr> isZoomed = False, onZoomChange = Some 7, scrollableEl = Element 1,
     zoomImg = Some [''src'' \<mapsto> Str ''big.png''], zoomMargin = 0 \<rparr>"

definition propsOpen :: BaseProps where
  "propsOpen = propsClosed\<lparr>isZoomed := True\<rparr>"

text \<open>
  Mount closed, open, let the replacement decode and the enlarging transition end: the
  component is settled in \<open>LOADED\<close>.
\<close>

definition openSession :: "event list" where
  "openSession = [Render propsClosed (Some ImgEl), Render propsOpen (Some ImgEl),
     Render propsOpen (Some ImgEl), DecodeResolved, TransitionEnd, RunTask,
     Render propsOpen (Some ImgEl)]"

text \<open>The owner lowers \<open>isZoomed\<close>, the shrinking transition ends, the queued work runs.\<close>

definition closeSession :: "event list" where
  "closeSession = [Render propsClosed (Some ImgEl), Render propsClosed (Some ImgEl),
     TransitionEnd, RunTask, RunTask, Render propsClosed (Some ImgEl)]"

text \<open>
  The same session up to the end of the shrinking transition: the deferred body of
  \<open>unzoom\<close> is queued and has not run yet.
\<close>

definition unzoomQueued :: "event list" where
  "unzoomQueued = openSession @ [Render propsClosed (Some ImgEl),
     Render propsClosed (Some ImgEl), TransitionEnd]"

text \<open>A component whose content holds no zoomable element, mounted closed.\<close>

definition mountedWithoutTarget :: BaseState where
  "mountedWithoutTarget = run [Render propsClosed None] init0"


text \<open>The first session with \<open>scrollableEl\<close> left at its default, the window.\<close>

definition openSessionWindow :: "event list" where
  "openSessionWindow =
     [Render (propsClosed\<lparr>scrollableEl := Window\<rparr>) (Some ImgEl),
      Render (propsOpen\<lparr>scrollableEl := Window\<rparr>) (Some ImgEl),
      Render (propsOpen\<lparr>scrollableEl := Window\<rparr>) (Some ImgEl),
      DecodeResolved, TransitionEnd, RunTask,
      Render (propsOpen\<lparr>scrollableEl := Window\<rparr>) (Some ImgEl)]"

text \<open>
  A session in which the owner passes a new \<open>onZoomChange\<close> function while the view is
  open, and closes afterwards.
\<close>

definition sessionWithNewCallback :: "event list" where
  "sessionWithNewCallback = openSession @
     [Render (propsOpen\<lparr>onZoomChange := Some 8\<rparr>) (Some ImgEl),
      Render (propsClosed\<lparr>onZoomChange := Some 8\<rparr>) (Some ImgEl),
      Render (propsClosed\<lparr>onZoomChange := Some 8\<rparr>) (Some ImgEl),
      TransitionEnd, RunTask, RunTask,
      Render (propsClosed\<lparr>onZoomChange := Some 8\<rparr>) (Some ImgEl)]"

section \<open>The lifecycle cycle and the work in flight\<close>

text \<open>
  The successor of a state on the cycle \<open>UNLOADED\<close>, \<open>LOADING\<close>, \<open>LOADED\<close>,
  \<open>UNLOADING\<close>, \<open>UNLOADED\<close>; a step is along the cycle when it keeps the state or moves
  it to its successor.
\<close>

fun nextState :: "ModalState \<Rightarrow> ModalState" where
  "nextState UNLOADED = LOADING"
| "nextState LOADING = LOADED"
| "nextState LOADED = UNLOADING"
| "nextState UNLOADING = UNLOADED"

definition alongCycle :: "ModalState \<Rightarrow> ModalState \<Rightarrow> bool" where
  "alongCycle a b = (b = a \<or> b = nextState a)"

text \<open>
  The deferred bodies of \<open>zoom\<close> and \<open>unzoom\<close> that are still to run, whether they wait for
  \<open>transitionend\<close> or for their timer. The work in flight fits the state when there is none,
  or one \<open>zoom\<close> completion in \<open>LOADING\<close>, or one \<open>unzoom\<close> completion in \<open>UNLOADING\<close>.
\<close>

definition work :: "pending list \<Rightarrow> pending list" where
  "work ts = filter (\<lambda>t. t \<noteq> CloseEvent) ts"

fun pendingFits :: "ModalState \<Rightarrow> pending list \<Rightarrow> bool" where
  "pendingFits m [] = True"
| "pendingFits LOADING [ZoomDone el h] = True"
| "pendingFits UNLOADING [UnzoomDone el h] = True"
| "pendingFits m ts = False"

text \<open>
  What holds of a mounted component as long as no request is reversed: \<open>prevIsZoomed\<close> is
  the \<open>isZoomed\<close> of the last render, the work in flight fits the state, and the last
  \<open>isZoomed\<close> was true exactly in \<open>LOADING\<close> and \<open>LOADED\<close>.
\<close>

definition consistent :: "BaseState \<Rightarrow> bool" where
  "consistent s =
     (unmounted s \<or>
      ((case curProps s of None \<Rightarrow> None | Some q \<Rightarrow> Some (isZoomed q)) = prevIsZoomed s
       \<and> pendingFits (modalState s) (work (transitionendOnce s) @ work (tasks s))
       \<and> (prevIsZoomed s = Some True) = (modalState s = LOADING \<or> modalState s = LOADED)))"

text \<open>
  An event is a reversal when it is a render that changes \<open>isZoomed\<close> while the state is
  \<open>LOADING\<close> or \<open>UNLOADING\<close>; every other event is admissible. \<open>noReversal\<close> says that
  each event of a sequence is admissible in the state it meets, and \<open>statesOf\<close> lists the
  lifecycle states the sequence goes through.
\<close>

definition admissible :: "event \<Rightarrow> BaseState \<Rightarrow> bool" where
  "admissible e s =
     (case e of
        Render p k \<Rightarrow> isZoomed p = (prevIsZoomed s = Some True)
                      \<or> modalState s = UNLOADED \<or> modalState s = LOADED
      | _ \<Rightarrow> True)"

fun noReversal :: "event list \<Rightarrow> BaseState \<Rightarrow> bool" where
  "noReversal [] s = True"
| "noReversal (e # es) s = (admissible e s \<and> noReversal es (step e s))"

fun statesOf :: "event list \<Rightarrow> BaseState \<Rightarrow> ModalState list" where
  "statesOf [] s = [modalState s]"
| "statesOf (e # es) s = modalState s # statesOf es (step e s)"

text \<open>The owner raises \<open>isZoomed\<close> and lowers it again before the enlarging transition ends.\<close>

definition mountedOpening :: "event list" where
  "mountedOpening = [Render propsClosed (Some ImgEl), Render propsOpen (Some ImgEl)]"

text \<open>The owner lowers \<open>isZoomed\<close> in \<open>LOADED\<close>; the shrinking transition has not ended.\<close>

definition mountedClosing :: "event list" where
  "mountedClosing = openSession @ [Render propsClosed (Some ImgEl)]"

section \<open>Geometry of the enlarged image\<close>

text \<open>
  The target as the geometry sees it: natural size, and the size and position it is displayed
  at; and the box computed for the enlarged image. Lengths are pixels, as exact reals.
\<close>

record ZoomTarget =
  naturalWidth :: real
  naturalHeight :: real
  displayWidth :: real
  displayHeight :: real
  displayTop :: real
  displayLeft :: real

record GeometryBox =
  boxTop :: real
  boxLeft :: real
  boxWidth :: real
  boxHeight :: real

datatype box_mode = Collapsed | Expanded

text \<open>
  Modelled from the spec: the natural resolution of the active asset is that of the
  replacement asset when one is configured, and the target's natural size otherwise.
  (\<open>getStyleModalImg\<close> is in \<open>./utils\<close>; the source holds only its call.)
\<close>

definition activeNatural :: "(real \<times> real) option \<Rightarrow> ZoomTarget \<Rightarrow> real \<times> real" where
  "activeNatural repl tgt =
     (case repl of None \<Rightarrow> (naturalWidth tgt, naturalHeight tgt) | Some n \<Rightarrow> n)"

text \<open>
  Modelled from the spec: the expanded box is the largest rectangle with the target's aspect
  ratio that fits within the viewport less twice the margin on each axis and does not exceed
  the natural resolution of the active asset. A rectangle with the target's aspect ratio is
  the displayed size times a factor, so the largest one has the least of the four quotients
  as its factor, and no negative one; a target of zero width or height gives a box of size zero.
\<close>

definition expandedScale ::
  "ZoomTarget \<Rightarrow> (real \<times> real) option \<Rightarrow> real \<Rightarrow> real \<Rightarrow> real \<Rightarrow> real" where
  "expandedScale tgt repl margin vw vh =
     (if displayWidth tgt \<le> 0 \<or> displayHeight tgt \<le> 0 then 0
      else max 0 (min (min ((vw - 2 * margin) / displayWidth tgt)
                           ((vh - 2 * margin) / displayHeight tgt))
                      (min (fst (activeNatural repl tgt) / displayWidth tgt)
                           (snd (activeNatural repl tgt) / displayHeight tgt))))"

text \<open>
  Modelled from the spec: \<open>computeBox(target, mode, margin)\<close>, with the replacement's
  natural size and the viewport as further arguments. Collapsed, the box overlays the target
  where it is displayed; expanded, it is the scaled target centred in the viewport.
\<close>

definition computeBox ::
  "ZoomTarget \<Rightarrow> box_mode \<Rightarrow> real \<Rightarrow> (real \<times> real) option \<Rightarrow> real \<Rightarrow> real \<Rightarrow> GeometryBox" where
  "computeBox tgt mode margin repl vw vh =
     (case mode of
        Collapsed \<Rightarrow> \<lparr> boxTop = displayTop tgt, boxLeft = displayLeft tgt,
                       boxWidth = displayWidth tgt, boxHeight = displayHeight tgt \<rparr>
      | Expanded \<Rightarrow>
          (let s = expandedScale tgt repl margin vw vh;
               w = displayWidth tgt * s;
               h = displayHeight tgt * s
           in \<lparr> boxTop = (vh - h) / 2, boxLeft = (vw - w) / 2, boxWidth = w, boxHeight = h \<rparr>))"

section \<open>What a scroll event reports\<close>



text \<open>
  Three other ways into \<open>LOADED\<close>: with the window as container the owner passes a new
  \<open>onZoomChange\<close> while the view is open; with an element as container the owner drops
  \<open>onZoomChange\<close> while the view is open; and a second open after the callback changed
  during the first session.
\<close>

definition loadedAfterNewCallbackOnWindow :: "event list" where
  "loadedAfterNewCallbackOnWindow = openSessionWindow @
     [Render (propsOpen\<lparr>scrollableEl := Window, onZoomChange := Some 8\<rparr>) (Some ImgEl)]"

definition loadedAfterCallbackDropped :: "event list" where
  "loadedAfterCallbackDropped = openSession @
     [Render (propsOpen\<lparr>onZoomChange := None\<rparr>) (Some ImgEl)]"

definition loadedAgainAfterNewCallback :: "event list" where
  "loadedAgainAfterNewCallback = sessionWithNewCallback @
     [Render (propsOpen\<lparr>onZoomChange := Some 8\<rparr>) (Some ImgEl),
      Render (propsOpen\<lparr>onZoomChange := Some 8\<rparr>) (Some ImgEl),
      TransitionEnd, RunTask,
      Render (propsOpen\<lparr>onZoomChange := Some 8\<rparr>) (Some ImgEl)]"

section \<open>Visual output of a lifecycle state\<close>

text \<open>
  C7. In every lifecycle state the content is visible exactly in \<open>UNLOADED\<close> and hidden in
  the three other states, and the overlay is hidden exactly in \<open>UNLOADED\<close> and \<open>UNLOADING\<close>
  and visible exactly in \<open>LOADING\<close> and \<open>LOADED\<close>.
\<close>

theorem visual_output_mapping:
  "(styleContent m = Visible) = (m = UNLOADED)
   \<and> (styleContent m = Hidden) = (m = LOADING \<or> m = LOADED \<or> m = UNLOADING)
   \<and> (dataOverlayState m = Hidden) = (m = UNLOADED \<or> m = UNLOADING)
   \<and> (dataOverlayState m = Visible) = (m = LOADING \<or> m = LOADED)"
  by (cases m) (simp_all add: styleContent_def dataOverlayState_def)

section \<open>The edge-triggered effect\<close>

lemma usePrevious_fst [simp]: "fst (usePrevious r v) = r"
  by (simp add: usePrevious_def)

lemma usePrevious_snd [simp]: "snd (usePrevious r v) = Some v"
  by (simp add: usePrevious_def)

lemma renderAction_unfold:
  "renderAction p s =
     (if unmounted s then NoAction
      else if zoomDepsChanged p (prevIsZoomed s) s then zoomEffect (prevIsZoomed s) (isZoomed p)
      else NoAction)"
  by (simp add: renderAction_def Let_def)

lemma render_mounts:
  assumes "\<not> unmounted s"
  shows "curProps (render p k s) = Some p" and "prevIsZoomed (render p k s) = Some (isZoomed p)"
    and "\<not> unmounted (render p k s)"
  using assms
  by (simp_all add: render_def Let_def zoom_def unzoom_def setModalState_def loadZoomImg_def
      cleanupLingering_def removeEventListener_def split: effect_action.splits)

lemma render_curImgEl: "\<not> unmounted s \<Longrightarrow> curImgEl (render p k s) = k"
  by (simp add: render_def Let_def zoom_def unzoom_def setModalState_def loadZoomImg_def
      cleanupLingering_def removeEventListener_def split: effect_action.splits)

lemma render_scrollGen:
  "\<not> unmounted s \<Longrightarrow>
     scrollGen (render p k s) = (if handleScrollChanged p s then scrollGen s + 1 else scrollGen s)"
  by (simp add: render_def Let_def zoom_def unzoom_def setModalState_def loadZoomImg_def
      cleanupLingering_def removeEventListener_def split: effect_action.splits)

lemma render_modalState:
  "\<not> unmounted s \<Longrightarrow> modalState (render p k s) =
     (case renderAction p s of RunZoom \<Rightarrow> LOADING | RunUnzoom \<Rightarrow> UNLOADING
      | NoAction \<Rightarrow> modalState s)"
  by (simp add: render_def Let_def zoom_def unzoom_def setModalState_def loadZoomImg_def
      cleanupLingering_def removeEventListener_def split: effect_action.splits)

lemma render_dialogOpen:
  "\<not> unmounted s \<Longrightarrow>
     dialogOpen (render p k s) = (renderAction p s = RunZoom \<or> dialogOpen s)"
  by (simp add: render_def Let_def zoom_def unzoom_def setModalState_def loadZoomImg_def
      cleanupLingering_def removeEventListener_def split: effect_action.splits)

lemma render_tasks: "tasks (render p k s) = tasks s"
  by (simp add: render_def Let_def zoom_def unzoom_def setModalState_def loadZoomImg_def
      cleanupLingering_def removeEventListener_def split: effect_action.splits)

lemma render_isZoomImgLoaded: "isZoomImgLoaded (render p k s) = isZoomImgLoaded s"
  by (simp add: render_def Let_def zoom_def unzoom_def setModalState_def loadZoomImg_def
      cleanupLingering_def removeEventListener_def split: effect_action.splits)

lemma render_decoding:
  "decoding (render p k s) =
     decoding s + (if renderAction p s = RunZoom \<and> hasZoomImg p then 1 else 0)"
proof (cases "unmounted s")
  case True
  then show ?thesis by (simp add: render_def renderAction_unfold)
next
  case False
  then show ?thesis
    by (cases "renderAction p s")
      (simp_all add: render_def Let_def zoom_def unzoom_def setModalState_def loadZoomImg_def
        hasZoomImg_def cleanupLingering_def removeEventListener_def)
qed

lemma render_transitionendOnce:
  "\<not> unmounted s \<Longrightarrow> transitionendOnce (render p k s) =
     (if modalNode k = modalNode (curImgEl s) then transitionendOnce s else []) @
     (case renderAction p s of
        RunZoom \<Rightarrow>
          if hasModalImg k
          then [ZoomDone (scrollableEl p)
                  (HandleScroll (scrollGen (render p k s)) (onZoomChange p))]
          else []
      | RunUnzoom \<Rightarrow>
          if hasModalImg k
          then [UnzoomDone (scrollableEl p)
                  (HandleScroll (scrollGen (render p k s)) (onZoomChange p))]
          else []
      | NoAction \<Rightarrow> [])"
  by (cases "renderAction p s")
    (simp_all add: render_def Let_def zoom_def unzoom_def setModalState_def loadZoomImg_def
      cleanupLingering_def removeEventListener_def curHandleScroll_def curOnZoomChange_def)

lemma zoomEffect_same: "zoomEffect (Some z) z = NoAction"
  by (simp add: zoomEffect_def)

lemma zoomEffect_edge:
  "zoomEffect (Some a) z = (if \<not> a \<and> z then RunZoom else if a \<and> \<not> z then RunUnzoom else NoAction)"
  by (simp add: zoomEffect_def)

lemma renderAction_after_render:
  assumes "\<not> unmounted s0"
  shows "renderAction p (render p0 k0 s0) =
           (if \<not> isZoomed p0 \<and> isZoomed p then RunZoom
            else if isZoomed p0 \<and> \<not> isZoomed p then RunUnzoom
            else NoAction)"
proof -
  let ?s = "render p0 k0 s0"
  have m: "curProps ?s = Some p0" "prevIsZoomed ?s = Some (isZoomed p0)" "\<not> unmounted ?s"
    using assms by (rule render_mounts)+
  show ?thesis
  proof (cases "isZoomed p = isZoomed p0")
    case True
    then have "renderAction p ?s = NoAction"
      using m by (simp add: renderAction_unfold zoomEffect_same)
    with True show ?thesis by simp
  next
    case False
    then have "zoomDepsChanged p (prevIsZoomed ?s) ?s"
      using m by (auto simp add: zoomDepsChanged_def)
    then have "renderAction p ?s = zoomEffect (Some (isZoomed p0)) (isZoomed p)"
      using m by (simp add: renderAction_unfold)
    then show ?thesis by (simp add: zoomEffect_edge)
  qed
qed

lemma renderAction_first: "renderAction p init0 = (if isZoomed p then RunZoom else NoAction)"
  by (simp add: renderAction_unfold zoomDepsChanged_def zoomEffect_def init0_def)

text \<open>
  C9, as the code has it. Take two consecutive renders of a mounted component, the first
  with props \<open>p0\<close> and target \<open>k0\<close>, the second with props \<open>p\<close> and target \<open>k\<close>.
  When \<open>isZoomed\<close> went from false to true, the effect of the second render runs \<open>zoom\<close>:
  the dialog is open, the state is \<open>LOADING\<close>, one decode is started when a replacement
  source is configured, and the completion of \<open>zoom\<close> waits for \<open>transitionend\<close> when a
  modal image is rendered. When \<open>isZoomed\<close> went from true to false, it runs \<open>unzoom\<close>: the
  state is \<open>UNLOADING\<close> and the completion of \<open>unzoom\<close> waits for \<open>transitionend\<close>. When
  \<open>isZoomed\<close> is unchanged, neither runs: state, dialog and pending decodes are as before,
  and so are the pending \<open>transitionend\<close> listeners unless the render replaced the modal
  image node. The timers and the readiness flag are as before in all three cases. The first
  render, which has no render before it, runs \<open>zoom\<close> exactly when \<open>isZoomed\<close> is true.
\<close>

theorem zoom_and_unzoom_run_on_edges:
  assumes "\<not> unmounted s0"
  shows
    "(let s = render p0 k0 s0;
          s' = render p k s;
          rise = (\<not> isZoomed p0 \<and> isZoomed p);
          fall = (isZoomed p0 \<and> \<not> isZoomed p);
          h = HandleScroll (scrollGen s') (onZoomChange p);
          kept = (if modalNode k = modalNode k0 then transitionendOnce s else [])
      in renderAction p s = (if rise then RunZoom else if fall then RunUnzoom else NoAction)
       \<and> modalState s' = (if rise then LOADING else if fall then UNLOADING else modalState s)
       \<and> dialogOpen s' = (rise \<or> dialogOpen s)
       \<and> decoding s' = decoding s + (if rise \<and> hasZoomImg p then 1 else 0)
       \<and> transitionendOnce s' = kept @
            (if rise \<and> hasModalImg k then [ZoomDone (scrollableEl p) h]
             else if fall \<and> hasModalImg k then [UnzoomDone (scrollableEl p) h]
             else [])
       \<and> tasks s' = tasks s
       \<and> isZoomImgLoaded s' = isZoomImgLoaded s)
     \<and> renderAction p init0 = (if isZoomed p then RunZoom else NoAction)
     \<and> modalState (render p k init0) = (if isZoomed p then LOADING else UNLOADED)
     \<and> dialogOpen (render p k init0) = isZoomed p
     \<and> decoding (render p k init0) = (if isZoomed p \<and> hasZoomImg p then 1 else 0)
     \<and> transitionendOnce (render p k init0) =
          (if isZoomed p \<and> hasModalImg k
           then [ZoomDone (scrollableEl p) (HandleScroll 0 (onZoomChange p))] else [])"
proof -
  let ?s = "render p0 k0 s0"
  let ?s' = "render p k ?s"
  have m: "curProps ?s = Some p0" "prevIsZoomed ?s = Some (isZoomed p0)" "\<not> unmounted ?s"
    using assms by (rule render_mounts)+
  have k0: "curImgEl ?s = k0" using assms by (rule render_curImgEl)
  have act: "renderAction p ?s =
           (if \<not> isZoomed p0 \<and> isZoomed p then RunZoom
            else if isZoomed p0 \<and> \<not> isZoomed p then RunUnzoom
            else NoAction)"
    using assms by (rule renderAction_after_render)
  have 1: "modalState ?s' =
      (if \<not> isZoomed p0 \<and> isZoomed p then LOADING
       else if isZoomed p0 \<and> \<not> isZoomed p then UNLOADING else modalState ?s)"
    using render_modalState [OF m(3), of p k] act by simp
  have 2: "dialogOpen ?s' = ((\<not> isZoomed p0 \<and> isZoomed p) \<or> dialogOpen ?s)"
    using render_dialogOpen [OF m(3), of p k] act by simp
  have 3: "decoding ?s' =
      decoding ?s + (if (\<not> isZoomed p0 \<and> isZoomed p) \<and> hasZoomImg p then 1 else 0)"
    using render_decoding [of p k ?s] act by simp
  have 4: "transitionendOnce ?s' =
      (if modalNode k = modalNode k0 then transitionendOnce ?s else []) @
      (if (\<not> isZoomed p0 \<and> isZoomed p) \<and> hasModalImg k
       then [ZoomDone (scrollableEl p) (HandleScroll (scrollGen ?s') (onZoomChange p))]
       else if (isZoomed p0 \<and> \<not> isZoomed p) \<and> hasModalImg k
       then [UnzoomDone (scrollableEl p) (HandleScroll (scrollGen ?s') (onZoomChange p))]
       else [])"
    using render_transitionendOnce [OF m(3), of p k] act k0 by simp
  have 5: "tasks ?s' = tasks ?s" by (rule render_tasks)
  have 6: "isZoomImgLoaded ?s' = isZoomImgLoaded ?s" by (rule render_isZoomImgLoaded)
  have u: "\<not> unmounted init0" by (simp add: init0_def)
  have f0: "renderAction p init0 = (if isZoomed p then RunZoom else NoAction)"
    by (rule renderAction_first)
  have f1: "modalState (render p k init0) = (if isZoomed p then LOADING else UNLOADED)"
    using render_modalState [OF u, of p k] f0 by (simp add: init0_def)
  have f2: "dialogOpen (render p k init0) = isZoomed p"
    using render_dialogOpen [OF u, of p k] f0 by (simp add: init0_def)
  have f3: "decoding (render p k init0) = (if isZoomed p \<and> hasZoomImg p then 1 else 0)"
    using render_decoding [of p k init0] f0 by (simp add: init0_def)
  have g: "scrollGen (render p k init0) = 0"
    using render_scrollGen [OF u, of p k] by (simp add: handleScrollChanged_def init0_def)
  have f4: "transitionendOnce (render p k init0) =
          (if isZoomed p \<and> hasModalImg k
           then [ZoomDone (scrollableEl p) (HandleScroll 0 (onZoomChange p))] else [])"
    using render_transitionendOnce [OF u, of p k] f0 g by (simp add: init0_def)
  show ?thesis
    unfolding Let_def using act 1 2 3 4 5 6 f0 f1 f2 f3 f4 by blast
qed

theorem zoom_and_unzoom_run_on_edges_witness:
  "\<not> unmounted init0
   \<and> renderAction propsOpen (render propsClosed (Some ImgEl) init0) = RunZoom
   \<and> modalState (render propsOpen (Some ImgEl) (render propsClosed (Some ImgEl) init0)) = LOADING
   \<and> dialogOpen (render propsOpen (Some ImgEl) (render propsClosed (Some ImgEl) init0))
   \<and> modalState (render propsOpen (Some ImgEl) init0) = LOADING"
proof -
  have u: "\<not> unmounted init0" by (simp add: init0_def)
  have z: "\<not> isZoomed propsClosed" "isZoomed propsOpen"
    by (simp_all add: propsOpen_def propsClosed_def)
  note t = zoom_and_unzoom_run_on_edges [OF u, of propsClosed "Some ImgEl" propsOpen "Some ImgEl",
      unfolded Let_def]
  have "renderAction propsOpen (render propsClosed (Some ImgEl) init0) = RunZoom"
    using t z by simp
  moreover have "modalState (render propsOpen (Some ImgEl) (render propsClosed (Some ImgEl) init0))
      = LOADING"
    using t z by simp
  moreover have "dialogOpen (render propsOpen (Some ImgEl) (render propsClosed (Some ImgEl) init0))"
    using t z by simp
  moreover have "modalState (render propsOpen (Some ImgEl) init0) = LOADING"
    using t z by simp
  ultimately show ?thesis using u by blast
qed

text \<open>
  The claim as written fails at the first render: a component mounted with \<open>isZoomed\<close> true
  runs \<open>zoom\<close>, opens the dialog, enters \<open>LOADING\<close> and starts the decode, although no
  render came before and \<open>isZoomed\<close> never was false.
\<close>

theorem zoom_runs_at_first_render_counterexample:
  "curProps init0 = None
   \<and> renderAction propsOpen init0 = RunZoom
   \<and> modalState (step (Render propsOpen (Some ImgEl)) init0) = LOADING
   \<and> dialogOpen (step (Render propsOpen (Some ImgEl)) init0) = True
   \<and> decoding (step (Render propsOpen (Some ImgEl)) init0) = 1"
  by code_simp

section \<open>Source attributes of the modal image\<close>




section \<open>What each operation leaves alone\<close>

lemma fold_runHandler_frame:
  "\<exists>n c. fold runHandler hs s = s\<lparr>forceUpdateVal := n, calls := c\<rparr>"
proof (induction hs arbitrary: s)
  case Nil
  have "s = s\<lparr>forceUpdateVal := forceUpdateVal s, calls := calls s\<rparr>" by simp
  then show ?case by (metis fold_simps(1))
next
  case (Cons h hs)
  obtain n c where 1: "runHandler h s = s\<lparr>forceUpdateVal := n, calls := c\<rparr>"
  proof (cases h)
    case (HandleScroll g cb)
    have "runHandler h s = s\<lparr>forceUpdateVal := forceUpdateVal (runHandler h s),
        calls := calls (runHandler h s)\<rparr>"
      using HandleScroll
      by (cases cb) (simp_all add: runHandler_def handleScroll_def handleClose_def report_def
          forceUpdate_def)
    then show ?thesis using that by blast
  next
    case HandleResize
    have "runHandler h s = s\<lparr>forceUpdateVal := forceUpdateVal (runHandler h s),
        calls := calls (runHandler h s)\<rparr>"
      using HandleResize by (simp add: runHandler_def handleResize_def forceUpdate_def)
    then show ?thesis using that by blast
  qed
  obtain n' c' where 2: "fold runHandler hs (runHandler h s)
      = (runHandler h s)\<lparr>forceUpdateVal := n', calls := c'\<rparr>"
    using Cons.IH by blast
  have "fold runHandler (h # hs) s = s\<lparr>forceUpdateVal := n', calls := c'\<rparr>"
    using 1 2 by simp
  then show ?case by blast
qed

lemma dispatchEvent_frame:
  "\<exists>n c. dispatchEvent t ty s = s\<lparr>forceUpdateVal := n, calls := c\<rparr>"
  unfolding dispatchEvent_def by (rule fold_runHandler_frame)

lemma runClick_frame: "\<exists>c. runClick n s = s\<lparr>calls := c\<rparr>"
proof -
  have "runClick n s = s\<lparr>calls := calls (runClick n s)\<rparr>"
    by (simp add: runClick_def handleOpen_def handleClose_def report_def
        split: option.splits click_handler.splits)
  then show ?thesis by blast
qed

lemma fold_runClick_frame: "\<exists>c. fold runClick ns s = s\<lparr>calls := c\<rparr>"
proof (induction ns arbitrary: s)
  case Nil
  have "s = s\<lparr>calls := calls s\<rparr>" by simp
  then show ?case by (metis fold_simps(1))
next
  case (Cons n ns)
  obtain c where 1: "runClick n s = s\<lparr>calls := c\<rparr>" using runClick_frame by blast
  obtain c' where 2: "fold runClick ns (runClick n s) = (runClick n s)\<lparr>calls := c'\<rparr>"
    using Cons.IH by blast
  have "fold runClick (n # ns) s = s\<lparr>calls := c'\<rparr>" using 1 2 by simp
  then show ?case by blast
qed

lemma click_frame: "\<exists>c. click n s = s\<lparr>calls := c\<rparr>"
proof (cases "mounted s")
  case True
  then show ?thesis using fold_runClick_frame by (simp add: click_def)
next
  case False
  have "s = s\<lparr>calls := calls s\<rparr>" by simp
  then show ?thesis using False by (metis click_def)
qed

lemma keydown_frame:
  "\<exists>c d t. keydown ky kc s = s\<lparr>calls := c, dialogOpen := d, tasks := t\<rparr>"
proof -
  have "keydown ky kc s = s\<lparr>calls := calls (keydown ky kc s),
      dialogOpen := dialogOpen (keydown ky kc s), tasks := tasks (keydown ky kc s)\<rparr>"
    by (simp add: keydown_def handleDialogKeyDown_def handleClose_def report_def closeDialog_def
        split: option.splits)
  then show ?thesis by blast
qed

section \<open>The readiness flag of the replacement image\<close>

lemma runPending_isZoomImgLoaded: "isZoomImgLoaded (runPending t s) = isZoomImgLoaded s"
  by (cases t)
    (simp_all add: runPending_def addEventListener_def removeEventListener_def
      setModalState_def forceUpdate_def closeDialog_def handleClose_def report_def
      split: option.splits)

lemma runPending_decoding: "decoding (runPending t s) = decoding s"
  by (cases t)
    (simp_all add: runPending_def addEventListener_def removeEventListener_def
      setModalState_def forceUpdate_def closeDialog_def handleClose_def report_def
      split: option.splits)

lemma runTask_isZoomImgLoaded: "isZoomImgLoaded (runTask s) = isZoomImgLoaded s"
  by (simp add: runTask_def runPending_isZoomImgLoaded split: list.splits)

lemma runTask_decoding: "decoding (runTask s) = decoding s"
  by (simp add: runTask_def runPending_decoding split: list.splits)

lemma dispatchEvent_isZoomImgLoaded: "isZoomImgLoaded (dispatchEvent t ty s) = isZoomImgLoaded s"
  using dispatchEvent_frame [of t ty s] by auto

lemma dispatchEvent_decoding: "decoding (dispatchEvent t ty s) = decoding s"
  using dispatchEvent_frame [of t ty s] by auto

lemma click_isZoomImgLoaded: "isZoomImgLoaded (click n s) = isZoomImgLoaded s"
  using click_frame [of n s] by auto

lemma click_decoding: "decoding (click n s) = decoding s"
  using click_frame [of n s] by auto

lemma keydown_isZoomImgLoaded: "isZoomImgLoaded (keydown ky kc s) = isZoomImgLoaded s"
  using keydown_frame [of ky kc s] by auto

lemma keydown_decoding: "decoding (keydown ky kc s) = decoding s"
  using keydown_frame [of ky kc s] by auto

lemma unmount_isZoomImgLoaded: "isZoomImgLoaded (unmount s) = isZoomImgLoaded s"
  by (simp add: unmount_def cleanupLingering_def removeEventListener_def)

lemma unmount_decoding: "decoding (unmount s) = decoding s"
  by (simp add: unmount_def cleanupLingering_def removeEventListener_def)

lemma step_isZoomImgLoaded:
  "isZoomImgLoaded (step e s) =
     (isZoomImgLoaded s \<or> (e = DecodeResolved \<and> 0 < decoding s \<and> \<not> unmounted s))"
  by (cases e)
    (auto simp add: render_isZoomImgLoaded transitionEnd_def runTask_isZoomImgLoaded
      decodeResolved_def decodeRejected_def setIsZoomImgLoaded_def
      dispatchEvent_isZoomImgLoaded click_isZoomImgLoaded keydown_isZoomImgLoaded
      unmount_isZoomImgLoaded)

lemma step_decoding:
  "decoding (step e s) =
     (case e of
        Render p k \<Rightarrow> decoding s + (if renderAction p s = RunZoom \<and> hasZoomImg p then 1 else 0)
      | DecodeResolved \<Rightarrow> decoding s - 1
      | DecodeRejected \<Rightarrow> decoding s - 1
      | _ \<Rightarrow> decoding s)"
  by (cases e)
    (auto simp add: render_decoding transitionEnd_def runTask_decoding
      decodeResolved_def decodeRejected_def setIsZoomImgLoaded_def
      dispatchEvent_decoding click_decoding keydown_decoding unmount_decoding)

lemma run_keeps_ready: "isZoomImgLoaded s \<Longrightarrow> isZoomImgLoaded (run es s)"
proof (induction es arbitrary: s)
  case Nil
  then show ?case by (simp add: run_def)
next
  case (Cons e es)
  have "isZoomImgLoaded (step e s)" using Cons.prems by (simp add: step_isZoomImgLoaded)
  then have "isZoomImgLoaded (run es (step e s))" by (rule Cons.IH)
  then show ?case by (simp add: run_def)
qed

text \<open>
  C3, as the code has it. The readiness flag becomes true only when a pending replacement
  decode resolves on a mounted component; a render starts one decode exactly when its effect
  runs \<open>zoom\<close> with a truthy replacement source, and no other step starts one; a decode that
  settles is consumed. No step resets the flag: once it is true it stays true along every
  sequence of events, the completion of \<open>unzoom\<close> included.
\<close>

theorem readiness_set_by_decode_and_never_reset:
  "isZoomImgLoaded (step e s) =
     (isZoomImgLoaded s \<or> (e = DecodeResolved \<and> 0 < decoding s \<and> \<not> unmounted s))
   \<and> decoding (step e s) =
     (case e of
        Render p k \<Rightarrow> decoding s + (if renderAction p s = RunZoom \<and> hasZoomImg p then 1 else 0)
      | DecodeResolved \<Rightarrow> decoding s - 1
      | DecodeRejected \<Rightarrow> decoding s - 1
      | _ \<Rightarrow> decoding s)
   \<and> (isZoomImgLoaded s \<longrightarrow> isZoomImgLoaded (run es s))"
  using step_isZoomImgLoaded [of e s] step_decoding [of e s] run_keeps_ready [of s es]
  by blast

theorem readiness_set_by_decode_and_never_reset_witness:
  "isZoomImgLoaded (run openSession init0)
   \<and> isZoomImgLoaded (run closeSession (run openSession init0))"
proof -
  have h: "isZoomImgLoaded (run openSession init0)" by code_simp
  show ?thesis
    using h readiness_set_by_decode_and_never_reset
      [of RunTask "run openSession init0" closeSession]
    by blast
qed

text \<open>
  The claim as written fails: when the deferred body of \<open>unzoom\<close> runs and the state goes
  from \<open>UNLOADING\<close> to \<open>UNLOADED\<close>, the flag set during the session is still true, and the
  next session enters \<open>LOADING\<close> with the flag true.
\<close>

theorem readiness_not_reset_counterexample:
  "modalState (run unzoomQueued init0) = UNLOADING
   \<and> modalState (step RunTask (run unzoomQueued init0)) = UNLOADED
   \<and> isZoomImgLoaded (step RunTask (run unzoomQueued init0)) = True
   \<and> modalState (run (openSession @ closeSession @ [Render propsOpen (Some ImgEl)]) init0)
       = LOADING
   \<and> isZoomImgLoaded (run (openSession @ closeSession @ [Render propsOpen (Some ImgEl)]) init0)
       = True"
  by code_simp

section \<open>The open request without a target\<close>

lemma click_BtnZoom:
  "mounted s \<Longrightarrow> click BtnZoom s = handleOpen (curOnZoomChange s) s"
  by (simp add: click_def runClick_def handleOpen_def report_def split: option.splits)

lemma click_Target_absent:
  "curImgEl s = None \<Longrightarrow> click Target s = s"
  by (simp add: click_def runClick_def)

text \<open>
  C4, as the code has it. With no resolved target, a click on the zoom button changes nothing
  of the state but the record of callback invocations: it reports \<open>true\<close> through
  \<open>onZoomChange\<close> once when a callback is given and invokes nothing when none is given;
  the lifecycle state is as before. A click on the absent target reaches no listener.
\<close>

theorem open_request_without_target:
  assumes "mounted s" and "curImgEl s = None"
  shows "step (Click BtnZoom) s =
           s\<lparr>calls := calls s @ (case curOnZoomChange s of None \<Rightarrow> [] | Some c \<Rightarrow> [(c, True)])\<rparr>
         \<and> modalState (step (Click BtnZoom) s) = modalState s
         \<and> step (Click Target) s = s"
  using assms
  by (simp add: click_BtnZoom click_Target_absent handleOpen_def report_def split: option.splits)

theorem open_request_without_target_witness:
  "mounted mountedWithoutTarget \<and> curImgEl mountedWithoutTarget = None
   \<and> calls (step (Click BtnZoom) mountedWithoutTarget) = [(7, True)]
   \<and> modalState (step (Click BtnZoom) mountedWithoutTarget) = UNLOADED"
proof -
  have m: "mounted mountedWithoutTarget" by code_simp
  have t: "curImgEl mountedWithoutTarget = None" by code_simp
  have c: "calls mountedWithoutTarget = []" "curOnZoomChange mountedWithoutTarget = Some 7"
    "modalState mountedWithoutTarget = UNLOADED"
    by code_simp+
  have "calls (step (Click BtnZoom) mountedWithoutTarget) = [(7, True)]"
    using open_request_without_target [OF m t] c by simp
  moreover have "modalState (step (Click BtnZoom) mountedWithoutTarget) = UNLOADED"
    using open_request_without_target [OF m t] c by simp
  ultimately show ?thesis using m t by simp
qed

text \<open>
  The claim as written fails: with no target and a callback configured, the open request
  invokes the callback; and when the owner then raises \<open>isZoomed\<close>, the state leaves
  \<open>UNLOADED\<close> although nothing can be zoomed.
\<close>

theorem open_request_without_target_counterexample:
  "curImgEl mountedWithoutTarget = None
   \<and> modalState mountedWithoutTarget = UNLOADED
   \<and> calls mountedWithoutTarget = []
   \<and> calls (step (Click BtnZoom) mountedWithoutTarget) = [(7, True)]
   \<and> modalState (step (Render propsOpen None) (step (Click BtnZoom) mountedWithoutTarget))
       = LOADING"
  by code_simp

section \<open>Scroll while loaded\<close>





lemma handleScroll_mounted:
  assumes "\<not> unmounted s"
  shows "handleScroll cb s =
           s\<lparr>forceUpdateVal := forceUpdateVal s + 1,
             calls := calls s @ (case cb of None \<Rightarrow> [] | Some c \<Rightarrow> [(c, False)])\<rparr>"
  using assms
  by (cases cb) (simp_all add: handleScroll_def handleClose_def report_def forceUpdate_def)








text \<open>
  Other states in \<open>LOADED\<close> that the component reaches without any reversal. With the
  window as container, a new \<open>onZoomChange\<close> makes the cleanup remove both listeners: a
  scroll reports nothing although a callback is configured. With an element as container
  and \<open>onZoomChange\<close> dropped, the listener attached earlier still reports through the old
  callback. In a second open after a change of callback two scroll listeners are attached,
  and one scroll event reports twice and adds two to the counter.
\<close>

lemma scroll_in_other_loaded_states:
  "modalState (run loadedAfterNewCallbackOnWindow init0) = LOADED
   \<and> listeners (run loadedAfterNewCallbackOnWindow init0) = []
   \<and> calls (step (ScrollEv Window) (run loadedAfterNewCallbackOnWindow init0)) = []
   \<and> modalState (run loadedAfterCallbackDropped init0) = LOADED
   \<and> curOnZoomChange (run loadedAfterCallbackDropped init0) = None
   \<and> calls (step (ScrollEv (Element 1)) (run loadedAfterCallbackDropped init0)) = [(7, False)]
   \<and> modalState (run loadedAgainAfterNewCallback init0) = LOADED
   \<and> handlersOn (Element 1) ScrollT (run loadedAgainAfterNewCallback init0)
       = [HandleScroll 0 (Some 7), HandleScroll 1 (Some 8)]
   \<and> forceUpdateVal (run loadedAgainAfterNewCallback init0) = 0
   \<and> forceUpdateVal (step (ScrollEv (Element 1)) (run loadedAgainAfterNewCallback init0)) = 2"
  by code_simp

section \<open>Escape and the explicit close actions\<close>

lemma keydown_Escape:
  assumes "mounted s" and "ky = ''Escape'' \<or> kc = 27"
  shows "keydown ky kc s = handleClose (curOnZoomChange s) s"
  using assms by (auto simp add: keydown_def handleDialogKeyDown_def)

lemma keydown_other:
  assumes "ky \<noteq> ''Escape''" and "kc \<noteq> 27"
  shows "keydown ky kc s = s"
  using assms by (simp add: keydown_def handleDialogKeyDown_def)

text \<open>
  No key closes the dialog natively: for Escape the handler has prevented the default, and
  no other key has that default.
\<close>

lemma keydown_intercepts_native_close:
  "dialogOpen (keydown ky kc s) = dialogOpen s \<and> tasks (keydown ky kc s) = tasks s"
  by (simp add: keydown_def handleDialogKeyDown_def handleClose_def report_def
      split: option.splits)

lemma click_Overlay:
  "mounted s \<Longrightarrow> click Overlay s = handleClose (curOnZoomChange s) s"
  by (simp add: click_def runClick_def handleClose_def report_def split: option.splits)

lemma click_ModalImg:
  "mounted s \<Longrightarrow> click ModalImg s = handleClose (curOnZoomChange s) s"
  by (simp add: click_def runClick_def handleClose_def report_def split: option.splits)

lemma click_BtnUnzoom:
  "mounted s \<Longrightarrow>
     click BtnUnzoom s = handleClose (curOnZoomChange s) (handleClose (curOnZoomChange s) s)"
  by (simp add: click_def runClick_def handleClose_def report_def curOnZoomChange_def
      split: option.splits)

lemma escape_same_as_overlay_click:
  "mounted s \<Longrightarrow> step (KeyDown ''Escape'' 27) s = step (Click Overlay) s"
  by (simp add: keydown_Escape click_Overlay)

text \<open>
  C6 evaluated on the code. In \<open>LOADED\<close>, Escape and a click on the overlay each invoke
  \<open>onZoomChange(false)\<close> once. A click on the unzoom button runs \<open>handleClose\<close> on the
  button and again on the enclosing dialog, whose \<open>onClick\<close> is \<open>handleClose\<close> too: the
  callback is invoked twice. The lifecycle state is \<open>LOADED\<close> after each of the three.
\<close>

theorem unzoom_button_reports_close_twice:
  "modalState (run openSession init0) = LOADED
   \<and> calls (run openSession init0) = []
   \<and> calls (step (KeyDown ''Escape'' 27) (run openSession init0)) = [(7, False)]
   \<and> calls (step (Click Overlay) (run openSession init0)) = [(7, False)]
   \<and> calls (step (Click BtnUnzoom) (run openSession init0)) = [(7, False), (7, False)]
   \<and> modalState (step (KeyDown ''Escape'' 27) (run openSession init0)) = LOADED
   \<and> modalState (step (Click BtnUnzoom) (run openSession init0)) = LOADED"
  by code_simp

section \<open>Scroll and resize listeners\<close>

lemma removeEventListener_removes:
  "(t, ty, h) \<notin> set (listeners (removeEventListener t ty h s))"
  by (simp add: removeEventListener_def)

lemma removeEventListener_keeps:
  "l \<noteq> (t, ty, h) \<Longrightarrow>
     l \<in> set (listeners (removeEventListener t ty h s)) = (l \<in> set (listeners s))"
  by (simp add: removeEventListener_def)

text \<open>
  The deferred body of \<open>unzoom\<close> removes the resize listener from the window and the scroll
  listener it closed over from the target it closed over.
\<close>

lemma unzoomDone_removes:
  "(el, ScrollT, h) \<notin> set (listeners (runPending (UnzoomDone el h) s))
   \<and> (Window, ResizeT, HandleResize) \<notin> set (listeners (runPending (UnzoomDone el h) s))"
  by (simp add: runPending_def closeDialog_def forceUpdate_def setModalState_def
      removeEventListener_def)

text \<open>The cleanup at unmount touches the window only.\<close>

lemma unmount_keeps_listeners_off_window:
  assumes "(Element n, ty, h) \<in> set (listeners s)"
  shows "(Element n, ty, h) \<in> set (listeners (unmount s))"
  using assms by (simp add: unmount_def cleanupLingering_def removeEventListener_def)

text \<open>
  C2 evaluated on the code, with \<open>scrollableEl\<close> an element other than the window. The
  completion of \<open>zoom\<close> attaches the scroll listener to that element and the resize listener
  to the window; the completion of \<open>unzoom\<close> removes both. Unmounting in \<open>LOADED\<close> removes
  the resize listener, and removes \<open>scroll\<close> from the window, where it was never attached:
  the scroll listener on the element stays. With the window as \<open>scrollableEl\<close> the same
  unmount leaves no listener.
\<close>

theorem unmount_leaves_scroll_listener_attached:
  "modalState (run openSession init0) = LOADED
   \<and> listeners (run openSession init0)
       = [(Element 1, ScrollT, HandleScroll 0 (Some 7)), (Window, ResizeT, HandleResize)]
   \<and> listeners (run (openSession @ closeSession) init0) = []
   \<and> listeners (step Unmount (run openSession init0))
       = [(Element 1, ScrollT, HandleScroll 0 (Some 7))]
   \<and> listeners (run openSessionWindow init0)
       = [(Window, ScrollT, HandleScroll 0 (Some 7)), (Window, ResizeT, HandleResize)]
   \<and> listeners (step Unmount (run openSessionWindow init0)) = []"
  by code_simp

text \<open>
  When \<open>onZoomChange\<close> is a new function in a later render, \<open>handleScroll\<close> is a new function
  too: the cleanup removes the resize listener while the view is open, and \<open>unzoom\<close> removes
  a scroll listener that was never attached, so the one attached survives the session.
\<close>

lemma stale_handleScroll_survives_unzoom:
  "modalState (run sessionWithNewCallback init0) = UNLOADED
   \<and> listeners (run sessionWithNewCallback init0)
       = [(Element 1, ScrollT, HandleScroll 0 (Some 7))]"
  by code_simp

section \<open>Lifecycle transitions\<close>

lemma pendingFits_cases:
  "pendingFits m ts \<Longrightarrow>
     ts = [] \<or> (m = LOADING \<and> (\<exists>el h. ts = [ZoomDone el h]))
     \<or> (m = UNLOADING \<and> (\<exists>el h. ts = [UnzoomDone el h]))"
  by (induction m ts rule: pendingFits.induct) simp_all

lemma pendingFits_stable:
  "pendingFits m ts \<Longrightarrow> m = UNLOADED \<or> m = LOADED \<Longrightarrow> ts = []"
  using pendingFits_cases by fastforce

lemma short_append_commute: "length (xs @ ys) \<le> 1 \<Longrightarrow> ys @ xs = xs @ ys"
  by (cases xs; cases ys) simp_all

lemma pendingFits_short: "pendingFits m ts \<Longrightarrow> length ts \<le> 1"
  using pendingFits_cases by fastforce

lemma pendingFits_suffix: "pendingFits m (xs @ ys) \<Longrightarrow> pendingFits m ys"
  using pendingFits_cases [of m "xs @ ys"]
  by (auto simp add: append_eq_Cons_conv)

lemma renderAction_consistent:
  assumes "\<not> unmounted s"
    and "(case curProps s of None \<Rightarrow> None | Some q \<Rightarrow> Some (isZoomed q)) = prevIsZoomed s"
  shows "renderAction p s = zoomEffect (prevIsZoomed s) (isZoomed p)"
  using assms
  by (auto simp add: renderAction_unfold zoomDepsChanged_def zoomEffect_def split: option.splits)


lemma render_ok:
  assumes "consistent s" and "admissible (Render p k) s"
  shows "consistent (render p k s) \<and> alongCycle (modalState s) (modalState (render p k s))"
proof (cases "unmounted s")
  case True
  then have "render p k s = s" by (simp add: render_def)
  then show ?thesis using assms(1) by (simp add: alongCycle_def)
next
  case False
  have c1: "(case curProps s of None \<Rightarrow> None | Some q \<Rightarrow> Some (isZoomed q)) = prevIsZoomed s"
    and c2: "pendingFits (modalState s) (work (transitionendOnce s) @ work (tasks s))"
    and c3: "(prevIsZoomed s = Some True) = (modalState s = LOADING \<or> modalState s = LOADED)"
    using assms(1) False by (simp_all add: consistent_def)
  have act: "renderAction p s = zoomEffect (prevIsZoomed s) (isZoomed p)"
    using False c1 by (rule renderAction_consistent)
  have adm: "isZoomed p = (prevIsZoomed s = Some True)
      \<or> modalState s = UNLOADED \<or> modalState s = LOADED"
    using assms(2) by (simp add: admissible_def)
  have m: "curProps (render p k s) = Some p" "prevIsZoomed (render p k s) = Some (isZoomed p)"
    "\<not> unmounted (render p k s)"
    using False by (rule render_mounts)+
  define kept where
    "kept = (if modalNode k = modalNode (curImgEl s) then transitionendOnce s else [])"
  define h where "h = HandleScroll (scrollGen (render p k s)) (onZoomChange p)"
  have once: "transitionendOnce (render p k s) = kept @
     (case renderAction p s of
        RunZoom \<Rightarrow> if hasModalImg k then [ZoomDone (scrollableEl p) h] else []
      | RunUnzoom \<Rightarrow> if hasModalImg k then [UnzoomDone (scrollableEl p) h] else []
      | NoAction \<Rightarrow> [])"
    unfolding kept_def h_def by (rule render_transitionendOnce [OF False])
  have keptfits: "pendingFits (modalState s) (work kept @ work (tasks s))"
    using c2 pendingFits_suffix [OF c2] by (simp add: kept_def work_def)
  have keptnil: "work (transitionendOnce s) @ work (tasks s) = [] \<Longrightarrow> work kept = []"
    by (simp add: kept_def work_def)
  have ms: "modalState (render p k s) =
     (case renderAction p s of RunZoom \<Rightarrow> LOADING | RunUnzoom \<Rightarrow> UNLOADING
      | NoAction \<Rightarrow> modalState s)"
    using False by (rule render_modalState)
  show ?thesis
  proof (cases "renderAction p s")
    case RunZoom
    then have z: "prevIsZoomed s \<noteq> Some True" "isZoomed p"
      using act by (auto simp add: zoomEffect_def split: if_splits)
    then have st: "modalState s = UNLOADED" using adm c3 by auto
    then have e: "work (transitionendOnce s) @ work (tasks s) = []"
      using c2 pendingFits_stable by blast
    have "pendingFits LOADING (work (transitionendOnce (render p k s)) @ work (tasks (render p k s)))"
      using e keptnil [OF e] once RunZoom by (simp add: render_tasks work_def)
    then have "consistent (render p k s)"
      using m ms RunZoom z by (simp add: consistent_def)
    then show ?thesis using ms RunZoom st by (simp add: alongCycle_def)
  next
    case RunUnzoom
    then have z: "prevIsZoomed s = Some True" "\<not> isZoomed p"
      using act by (auto simp add: zoomEffect_def split: if_splits)
    then have st: "modalState s = LOADED" using adm c3 by auto
    then have e: "work (transitionendOnce s) @ work (tasks s) = []"
      using c2 pendingFits_stable by blast
    have "pendingFits UNLOADING (work (transitionendOnce (render p k s)) @ work (tasks (render p k s)))"
      using e keptnil [OF e] once RunUnzoom by (simp add: render_tasks work_def)
    then have "consistent (render p k s)"
      using m ms RunUnzoom z by (simp add: consistent_def)
    then show ?thesis using ms RunUnzoom st by (simp add: alongCycle_def)
  next
    case NoAction
    then have z: "isZoomed p = (prevIsZoomed s = Some True)"
      using act by (auto simp add: zoomEffect_def split: if_splits)
    have "consistent (render p k s)"
      using m ms NoAction z keptfits c3 once by (simp add: consistent_def render_tasks)
    then show ?thesis using ms NoAction by (simp add: alongCycle_def)
  qed
qed

lemma transitionEnd_ok:
  assumes "consistent s"
  shows "consistent (transitionEnd s) \<and> alongCycle (modalState s) (modalState (transitionEnd s))"
proof (cases "unmounted s")
  case True
  then show ?thesis by (simp add: consistent_def transitionEnd_def alongCycle_def)
next
  case False
  have c2: "pendingFits (modalState s) (work (transitionendOnce s) @ work (tasks s))"
    using assms False by (simp add: consistent_def)
  have "work (tasks s) @ work (transitionendOnce s) = work (transitionendOnce s) @ work (tasks s)"
    using pendingFits_short [OF c2] by (rule short_append_commute)
  then have "pendingFits (modalState s) (work (tasks s) @ work (transitionendOnce s))"
    using c2 by simp
  then show ?thesis
    using assms False by (simp add: consistent_def transitionEnd_def alongCycle_def work_def)
qed


lemma runPending_ZoomDone_fields:
  "modalState (runPending (ZoomDone el h) s) = (if unmounted s then modalState s else LOADED)"
  "transitionendOnce (runPending (ZoomDone el h) s) = transitionendOnce s"
  "tasks (runPending (ZoomDone el h) s) = tasks s"
  "prevIsZoomed (runPending (ZoomDone el h) s) = prevIsZoomed s"
  "curProps (runPending (ZoomDone el h) s) = curProps s"
  "unmounted (runPending (ZoomDone el h) s) = unmounted s"
  by (simp_all add: runPending_def addEventListener_def setModalState_def)

lemma runPending_UnzoomDone_fields:
  "modalState (runPending (UnzoomDone el h) s) = (if unmounted s then modalState s else UNLOADED)"
  "transitionendOnce (runPending (UnzoomDone el h) s) = transitionendOnce s"
  "work (tasks (runPending (UnzoomDone el h) s)) = work (tasks s)"
  "prevIsZoomed (runPending (UnzoomDone el h) s) = prevIsZoomed s"
  "curProps (runPending (UnzoomDone el h) s) = curProps s"
  "unmounted (runPending (UnzoomDone el h) s) = unmounted s"
  by (simp_all add: runPending_def removeEventListener_def setModalState_def forceUpdate_def
      closeDialog_def work_def)

lemma runPending_CloseEvent_fields:
  "modalState (runPending CloseEvent s) = modalState s"
  "transitionendOnce (runPending CloseEvent s) = transitionendOnce s"
  "tasks (runPending CloseEvent s) = tasks s"
  "prevIsZoomed (runPending CloseEvent s) = prevIsZoomed s"
  "curProps (runPending CloseEvent s) = curProps s"
  "unmounted (runPending CloseEvent s) = unmounted s"
  by (simp_all add: runPending_def handleClose_def report_def split: option.splits)

lemma runTask_unmounted:
  assumes "unmounted s"
  shows "unmounted (runTask s) \<and> modalState (runTask s) = modalState s"
proof (cases "tasks s")
  case Nil
  then show ?thesis using assms by (simp add: runTask_def)
next
  case (Cons t ts)
  then show ?thesis
    using assms
    by (cases t)
      (simp_all add: runTask_def runPending_ZoomDone_fields runPending_UnzoomDone_fields
        runPending_CloseEvent_fields)
qed

lemma runTask_ok:
  assumes "consistent s"
  shows "consistent (runTask s) \<and> alongCycle (modalState s) (modalState (runTask s))"
proof (cases "unmounted s")
  case True
  then show ?thesis using runTask_unmounted [OF True] by (simp add: consistent_def alongCycle_def)
next
  case False
  have c1: "(case curProps s of None \<Rightarrow> None | Some q \<Rightarrow> Some (isZoomed q)) = prevIsZoomed s"
    and c2: "pendingFits (modalState s) (work (transitionendOnce s) @ work (tasks s))"
    and c3: "(prevIsZoomed s = Some True) = (modalState s = LOADING \<or> modalState s = LOADED)"
    using assms False by (simp_all add: consistent_def)
  show ?thesis
  proof (cases "tasks s")
    case Nil
    then show ?thesis using assms by (simp add: runTask_def alongCycle_def)
  next
    case (Cons t ts)
    let ?s = "s\<lparr>tasks := ts\<rparr>"
    have rt: "runTask s = runPending t ?s" using Cons by (simp add: runTask_def)
    show ?thesis
    proof (cases t)
      case (ZoomDone el h)
      have w: "work (tasks s) = ZoomDone el h # work ts"
        using Cons ZoomDone by (simp add: work_def)
      have "work (transitionendOnce s) @ ZoomDone el h # work ts = [ZoomDone el h]
          \<and> modalState s = LOADING"
        using pendingFits_cases [OF c2] w by (auto simp add: append_eq_Cons_conv Cons_eq_append_conv)
      then have e: "work (transitionendOnce s) = []" "work ts = []" "modalState s = LOADING"
        by (auto simp add: append_eq_Cons_conv)
      have "consistent (runPending t ?s)"
        using ZoomDone False c1 c3 e
        by (simp add: consistent_def runPending_ZoomDone_fields)
      moreover have "modalState (runPending t ?s) = LOADED"
        using ZoomDone False by (simp add: runPending_ZoomDone_fields)
      ultimately show ?thesis using rt e by (simp add: alongCycle_def)
    next
      case (UnzoomDone el h)
      have w: "work (tasks s) = UnzoomDone el h # work ts"
        using Cons UnzoomDone by (simp add: work_def)
      have "work (transitionendOnce s) @ UnzoomDone el h # work ts = [UnzoomDone el h]
          \<and> modalState s = UNLOADING"
        using pendingFits_cases [OF c2] w by (auto simp add: append_eq_Cons_conv Cons_eq_append_conv)
      then have e: "work (transitionendOnce s) = []" "work ts = []" "modalState s = UNLOADING"
        by (auto simp add: append_eq_Cons_conv)
      have "consistent (runPending t ?s)"
        using UnzoomDone False c1 c3 e
        by (simp add: consistent_def runPending_UnzoomDone_fields)
      moreover have "modalState (runPending t ?s) = UNLOADED"
        using UnzoomDone False by (simp add: runPending_UnzoomDone_fields)
      ultimately show ?thesis using rt e by (simp add: alongCycle_def)
    next
      case CloseEvent
      have w: "work (tasks s) = work ts"
        using Cons CloseEvent by (simp add: work_def)
      have "consistent (runPending t ?s)"
        using CloseEvent False c1 c2 c3 w
        by (simp add: consistent_def runPending_CloseEvent_fields)
      then show ?thesis
        using rt CloseEvent by (simp add: alongCycle_def runPending_CloseEvent_fields)
    qed
  qed
qed

lemma consistent_frame:
  assumes "consistent s"
    and "modalState s' = modalState s" and "prevIsZoomed s' = prevIsZoomed s"
    and "curProps s' = curProps s" and "transitionendOnce s' = transitionendOnce s"
    and "tasks s' = tasks s" and "unmounted s \<longrightarrow> unmounted s'"
  shows "consistent s' \<and> alongCycle (modalState s) (modalState s')"
  using assms by (auto simp add: consistent_def alongCycle_def)

lemma dispatchEvent_ok:
  assumes "consistent s"
  shows "consistent (dispatchEvent t ty s)
     \<and> alongCycle (modalState s) (modalState (dispatchEvent t ty s))"
proof -
  obtain n c where "dispatchEvent t ty s = s\<lparr>forceUpdateVal := n, calls := c\<rparr>"
    using dispatchEvent_frame by blast
  then show ?thesis using consistent_frame [OF assms, of "dispatchEvent t ty s"] by simp
qed

lemma click_ok:
  assumes "consistent s"
  shows "consistent (click n s) \<and> alongCycle (modalState s) (modalState (click n s))"
proof -
  obtain c where "click n s = s\<lparr>calls := c\<rparr>" using click_frame by blast
  then show ?thesis using consistent_frame [OF assms, of "click n s"] by simp
qed

lemma keydown_ok:
  assumes "consistent s"
  shows "consistent (keydown ky kc s) \<and> alongCycle (modalState s) (modalState (keydown ky kc s))"
proof -
  obtain c d t where "keydown ky kc s = s\<lparr>calls := c, dialogOpen := d, tasks := t\<rparr>"
    using keydown_frame by blast
  moreover have "tasks (keydown ky kc s) = tasks s"
    using keydown_intercepts_native_close by blast
  ultimately show ?thesis using consistent_frame [OF assms, of "keydown ky kc s"] by simp
qed

lemma decode_ok:
  assumes "consistent s"
  shows "consistent (decodeResolved s) \<and> alongCycle (modalState s) (modalState (decodeResolved s))"
    and "consistent (decodeRejected s) \<and> alongCycle (modalState s) (modalState (decodeRejected s))"
  using consistent_frame [OF assms, of "decodeResolved s"]
    consistent_frame [OF assms, of "decodeRejected s"]
  by (simp_all add: decodeResolved_def decodeRejected_def setIsZoomImgLoaded_def)

lemma unmount_ok:
  assumes "consistent s"
  shows "consistent (unmount s) \<and> alongCycle (modalState s) (modalState (unmount s))"
  using assms
  by (simp add: unmount_def cleanupLingering_def removeEventListener_def consistent_def
      alongCycle_def)

lemma step_ok:
  assumes "consistent s" and "admissible e s"
  shows "consistent (step e s) \<and> alongCycle (modalState s) (modalState (step e s))"
proof (cases e)
  case (Render p k)
  then show ?thesis using render_ok assms by simp
next
  case TransitionEnd
  then show ?thesis using transitionEnd_ok assms by simp
next
  case RunTask
  then show ?thesis using runTask_ok assms by simp
next
  case DecodeResolved
  then show ?thesis using decode_ok(1) assms by simp
next
  case DecodeRejected
  then show ?thesis using decode_ok(2) assms by simp
next
  case (ScrollEv t)
  then show ?thesis using dispatchEvent_ok assms by simp
next
  case ResizeEv
  then show ?thesis using dispatchEvent_ok assms by simp
next
  case (KeyDown ky kc)
  then show ?thesis using keydown_ok assms by simp
next
  case (Click n)
  then show ?thesis using click_ok assms by simp
next
  case Unmount
  then show ?thesis using unmount_ok assms by simp
qed

lemma consistent_init0: "consistent init0"
  by (simp add: consistent_def init0_def work_def)

lemma statesOf_hd: "\<exists>ms. statesOf es s = modalState s # ms"
  by (cases es) simp_all

lemma noReversal_successively:
  "consistent s \<Longrightarrow> noReversal es s \<Longrightarrow> successively alongCycle (statesOf es s)"
proof (induction es arbitrary: s)
  case Nil
  then show ?case by simp
next
  case (Cons e es)
  have ok: "consistent (step e s)" "alongCycle (modalState s) (modalState (step e s))"
    using step_ok Cons.prems by simp_all
  have rest: "successively alongCycle (statesOf es (step e s))"
    using Cons.IH ok(1) Cons.prems(2) by simp
  obtain ms where ms: "statesOf es (step e s) = modalState (step e s) # ms"
    using statesOf_hd by blast
  show ?case using rest ok(2) ms by simp
qed

text \<open>
  C1, as the code has it. Along every sequence of events from the initial state in which
  \<open>isZoomed\<close> changes only while the state is \<open>UNLOADED\<close> or \<open>LOADED\<close>, each step
  keeps the lifecycle state or moves it to its successor on the cycle \<open>UNLOADED\<close>,
  \<open>LOADING\<close>, \<open>LOADED\<close>, \<open>UNLOADING\<close>, \<open>UNLOADED\<close>.
\<close>

theorem transitions_follow_cycle_without_reversal:
  assumes "noReversal es init0"
  shows "successively alongCycle (statesOf es init0)"
  using consistent_init0 assms by (rule noReversal_successively)

theorem transitions_follow_cycle_without_reversal_witness:
  "noReversal (openSession @ closeSession) init0
   \<and> successively alongCycle (statesOf (openSession @ closeSession) init0)
   \<and> statesOf (openSession @ closeSession) init0 =
       [UNLOADED, UNLOADED, LOADING, LOADING, LOADING, LOADING, LOADED, LOADED,
        UNLOADING, UNLOADING, UNLOADING, UNLOADED, UNLOADED, UNLOADED]"
proof -
  have h: "noReversal (openSession @ closeSession) init0" by code_simp
  have v: "statesOf (openSession @ closeSession) init0 =
       [UNLOADED, UNLOADED, LOADING, LOADING, LOADING, LOADING, LOADED, LOADED,
        UNLOADING, UNLOADING, UNLOADING, UNLOADED, UNLOADED, UNLOADED]"
    by code_simp
  show ?thesis
    using h v transitions_follow_cycle_without_reversal [OF h] by blast
qed

text \<open>
  The claim as written fails: \<open>zoom\<close> and \<open>unzoom\<close> set the state whatever it was. Lowering
  \<open>isZoomed\<close> in \<open>LOADING\<close> moves the state straight to \<open>UNLOADING\<close>, and raising it in
  \<open>UNLOADING\<close> moves it straight to \<open>LOADING\<close>.
\<close>

theorem lifecycle_reversal_counterexample:
  "modalState (run mountedOpening init0) = LOADING
   \<and> modalState (step (Render propsClosed (Some ImgEl)) (run mountedOpening init0)) = UNLOADING
   \<and> modalState (run mountedClosing init0) = UNLOADING
   \<and> modalState (step (Render propsOpen (Some ImgEl)) (run mountedClosing init0)) = LOADING"
  by code_simp

section \<open>The expanded box\<close>

lemma scale_bound: "0 < (w::real) \<Longrightarrow> x \<le> n / w \<Longrightarrow> w * x \<le> n"
  by (simp add: pos_le_divide_eq mult.commute)

lemma expandedScale_nonneg: "0 \<le> expandedScale tgt repl margin vw vh"
  by (simp add: expandedScale_def)

lemma expandedScale_width:
  assumes "0 \<le> fst (activeNatural repl tgt)"
  shows "displayWidth tgt * expandedScale tgt repl margin vw vh \<le> fst (activeNatural repl tgt)"
proof (cases "displayWidth tgt \<le> 0 \<or> displayHeight tgt \<le> 0")
  case True
  then show ?thesis using assms by (simp add: expandedScale_def)
next
  case False
  then have w: "0 < displayWidth tgt" by simp
  let ?m = "min (min ((vw - 2 * margin) / displayWidth tgt)
                           ((vh - 2 * margin) / displayHeight tgt))
                      (min (fst (activeNatural repl tgt) / displayWidth tgt)
                           (snd (activeNatural repl tgt) / displayHeight tgt))"
  have s: "expandedScale tgt repl margin vw vh = max 0 ?m"
    using False by (simp add: expandedScale_def)
  have "?m \<le> fst (activeNatural repl tgt) / displayWidth tgt" by simp
  moreover have "0 \<le> fst (activeNatural repl tgt) / displayWidth tgt" using assms w by simp
  ultimately have "max 0 ?m \<le> fst (activeNatural repl tgt) / displayWidth tgt" by simp
  then have "displayWidth tgt * max 0 ?m \<le> fst (activeNatural repl tgt)"
    using w by (rule scale_bound [rotated])
  then show ?thesis using s by simp
qed

lemma expandedScale_height:
  assumes "0 \<le> snd (activeNatural repl tgt)"
  shows "displayHeight tgt * expandedScale tgt repl margin vw vh \<le> snd (activeNatural repl tgt)"
proof (cases "displayWidth tgt \<le> 0 \<or> displayHeight tgt \<le> 0")
  case True
  then show ?thesis using assms by (simp add: expandedScale_def)
next
  case False
  then have w: "0 < displayHeight tgt" by simp
  let ?m = "min (min ((vw - 2 * margin) / displayWidth tgt)
                           ((vh - 2 * margin) / displayHeight tgt))
                      (min (fst (activeNatural repl tgt) / displayWidth tgt)
                           (snd (activeNatural repl tgt) / displayHeight tgt))"
  have s: "expandedScale tgt repl margin vw vh = max 0 ?m"
    using False by (simp add: expandedScale_def)
  have "?m \<le> snd (activeNatural repl tgt) / displayHeight tgt" by simp
  moreover have "0 \<le> snd (activeNatural repl tgt) / displayHeight tgt" using assms w by simp
  ultimately have "max 0 ?m \<le> snd (activeNatural repl tgt) / displayHeight tgt" by simp
  then have "displayHeight tgt * max 0 ?m \<le> snd (activeNatural repl tgt)"
    using w by (rule scale_bound [rotated])
  then show ?thesis using s by simp
qed

lemma expandedScale_largest:
  assumes "0 < displayWidth tgt" and "0 < displayHeight tgt" and "0 \<le> s"
    and "displayWidth tgt * s \<le> vw - 2 * margin" and "displayHeight tgt * s \<le> vh - 2 * margin"
    and "displayWidth tgt * s \<le> fst (activeNatural repl tgt)"
    and "displayHeight tgt * s \<le> snd (activeNatural repl tgt)"
  shows "s \<le> expandedScale tgt repl margin vw vh"
proof -
  have "s \<le> (vw - 2 * margin) / displayWidth tgt" "s \<le> (vh - 2 * margin) / displayHeight tgt"
    "s \<le> fst (activeNatural repl tgt) / displayWidth tgt"
    "s \<le> snd (activeNatural repl tgt) / displayHeight tgt"
    using assms by (simp_all add: pos_le_divide_eq mult.commute)
  then show ?thesis using assms(1,2) by (simp add: expandedScale_def)
qed

text \<open>
  C8. For every margin and every viewport size, with an active asset of non-negative natural
  size, the expanded box is no wider and no taller than the natural resolution of the active
  asset (the replacement when configured, the target otherwise), and it has the target's
  aspect ratio exactly: width times target height equals height times target width. With no
  replacement, a target of natural size 200 by 150 displayed at that aspect ratio, in a
  viewport of 2000 by 2000 with margin 0, gets a box of exactly 200 by 150.
\<close>

theorem expanded_box_within_natural_resolution:
  assumes "0 \<le> fst (activeNatural repl tgt)" and "0 \<le> snd (activeNatural repl tgt)"
  shows "boxWidth (computeBox tgt Expanded margin repl vw vh) \<le> fst (activeNatural repl tgt)
     \<and> boxHeight (computeBox tgt Expanded margin repl vw vh) \<le> snd (activeNatural repl tgt)
     \<and> boxWidth (computeBox tgt Expanded margin repl vw vh) * displayHeight tgt
         = boxHeight (computeBox tgt Expanded margin repl vw vh) * displayWidth tgt
     \<and> (0 < dw \<longrightarrow>
          boxWidth (computeBox \<lparr>naturalWidth = 200, naturalHeight = 150, displayWidth = dw,
             displayHeight = dw * 3 / 4, displayTop = t, displayLeft = l\<rparr>
             Expanded 0 None 2000 2000) = 200
        \<and> boxHeight (computeBox \<lparr>naturalWidth = 200, naturalHeight = 150, displayWidth = dw,
             displayHeight = dw * 3 / 4, displayTop = t, displayLeft = l\<rparr>
             Expanded 0 None 2000 2000) = 150)"
proof -
  have 1: "boxWidth (computeBox tgt Expanded margin repl vw vh) \<le> fst (activeNatural repl tgt)"
    using expandedScale_width [OF assms(1)] by (simp add: computeBox_def Let_def)
  have 2: "boxHeight (computeBox tgt Expanded margin repl vw vh) \<le> snd (activeNatural repl tgt)"
    using expandedScale_height [OF assms(2)] by (simp add: computeBox_def Let_def)
  have 3: "boxWidth (computeBox tgt Expanded margin repl vw vh) * displayHeight tgt
         = boxHeight (computeBox tgt Expanded margin repl vw vh) * displayWidth tgt"
    by (simp add: computeBox_def Let_def)
  have 4: "0 < dw \<longrightarrow>
          boxWidth (computeBox \<lparr>naturalWidth = 200, naturalHeight = 150, displayWidth = dw,
             displayHeight = dw * 3 / 4, displayTop = t, displayLeft = l\<rparr>
             Expanded 0 None 2000 2000) = 200
        \<and> boxHeight (computeBox \<lparr>naturalWidth = 200, naturalHeight = 150, displayWidth = dw,
             displayHeight = dw * 3 / 4, displayTop = t, displayLeft = l\<rparr>
             Expanded 0 None 2000 2000) = 150"
    by (simp add: computeBox_def Let_def expandedScale_def activeNatural_def min_def max_def
        field_simps)
  show ?thesis using 1 2 3 4 by blast
qed

theorem expanded_box_within_natural_resolution_witness:
  "0 \<le> fst (activeNatural (Some (1600, 1200)) \<lparr>naturalWidth = 400, naturalHeight = 300,
       displayWidth = 400, displayHeight = 300, displayTop = 5, displayLeft = 7\<rparr>)
   \<and> 0 \<le> snd (activeNatural (Some (1600, 1200)) \<lparr>naturalWidth = 400, naturalHeight = 300,
       displayWidth = 400, displayHeight = 300, displayTop = 5, displayLeft = 7\<rparr>)
   \<and> (0::real) < 200
   \<and> boxWidth (computeBox \<lparr>naturalWidth = 400, naturalHeight = 300,
       displayWidth = 400, displayHeight = 300, displayTop = 5, displayLeft = 7\<rparr>
       Expanded 20 (Some (1600, 1200)) 1000 800) \<le> 1600
   \<and> boxHeight (computeBox \<lparr>naturalWidth = 400, naturalHeight = 300,
       displayWidth = 400, displayHeight = 300, displayTop = 5, displayLeft = 7\<rparr>
       Expanded 20 (Some (1600, 1200)) 1000 800) \<le> 1200
   \<and> boxWidth (computeBox \<lparr>naturalWidth = 200, naturalHeight = 150, displayWidth = 200,
       displayHeight = 200 * 3 / 4, displayTop = 0, displayLeft = 0\<rparr>
       Expanded 0 None 2000 2000) = 200
   \<and> boxHeight (computeBox \<lparr>naturalWidth = 200, naturalHeight = 150, displayWidth = 200,
       displayHeight = 200 * 3 / 4, displayTop = 0, displayLeft = 0\<rparr>
       Expanded 0 None 2000 2000) = 150"
proof -
  let ?t = "\<lparr>naturalWidth = 400, naturalHeight = 300,
       displayWidth = 400, displayHeight = 300, displayTop = 5, displayLeft = 7\<rparr>"
  have a: "0 \<le> fst (activeNatural (Some (1600, 1200)) ?t)"
    by (simp add: activeNatural_def)
  have b: "0 \<le> snd (activeNatural (Some (1600, 1200)) ?t)"
    by (simp add: activeNatural_def)
  have n: "fst (activeNatural (Some (1600, 1200)) ?t) = 1600"
    "snd (activeNatural (Some (1600, 1200)) ?t) = 1200"
    by (simp_all add: activeNatural_def)
  have d: "(0::real) < 200" by simp
  show ?thesis
    using a b d expanded_box_within_natural_resolution [OF a b, of 20 1000 800 200 0 0]
    unfolding n by blast
qed

text \<open>
  The first scenario of the specification: a 400 by 300 target with a 1600 by 1200
  replacement in a 1000 by 800 viewport with margin 20 gets the box 960 by 720 at left 20,
  top 40.
\<close>

lemma expanded_box_scenario_960_720:
  "computeBox \<lparr>naturalWidth = 400, naturalHeight = 300, displayWidth = 400,
      displayHeight = 300, displayTop = 5, displayLeft = 7\<rparr> Expanded 20 (Some (1600, 1200)) 1000 800
   = \<lparr>boxTop = 40, boxLeft = 20, boxWidth = 960, boxHeight = 720\<rparr>"
  by (simp add: computeBox_def Let_def expandedScale_def activeNatural_def)

end
